theory Spec2Isabelle
  imports Main "HOL-Library.Word"
begin

section \<open>The compression dispatcher of libknet (libknet/compress.c)\<close>

text \<open>
  A shallow embedding of \<^verbatim>\<open>src/libknet/compress.c\<close>. The file keeps three pieces of
  process-wide state (the table \<^verbatim>\<open>compress_modules_cmds\<close>, \<^verbatim>\<open>max_model\<close> and
  \<^verbatim>\<open>last_load_failure\<close>) and works on a transport handle \<^verbatim>\<open>knet_h\<close>. Every function
  of the file becomes a function from the state and the handle to the returned value, the
  new state and the new handle. What the C code gets from outside (the results of the lock
  calls, the readings of the monotonic clock) is an explicit argument; what it does to the
  outside (log lines, calls through the function pointers of a table row) is appended to
  two lists kept in the state. A call through a NULL function pointer and a table access
  outside the array are undefined behaviour in C: they are the \<open>Inl\<close> results.
\<close>

subsection \<open>The handle\<close>

type_synonym buf = "8 word list"

text \<open>
  A slot of \<^verbatim>\<open>knet_h->compress_int_data[]\<close> is a \<^verbatim>\<open>void *\<close>: NULL, the address of the
  string literal \<^verbatim>\<open>"1"\<close> stored at line 226, or private data of a back-end.
\<close>

datatype ptr = NULL | Fake_ref | Private nat

text \<open>
  Modelled from the spec: \<^verbatim>\<open>internals.h\<close> is not among the sources. The handle fields
  that compress.c reads and writes are taken with the types the spec's data model gives
  them (section 3); the array \<^verbatim>\<open>compress_int_data\<close> is a total function from the index.
\<close>

record knet_handle =
  compress_model :: int
  compress_level :: int
  compress_threshold :: nat
  compress_int_data :: "nat \<Rightarrow> ptr"

text \<open>The argument of \<^verbatim>\<open>compress_cfg\<close>, \<^verbatim>\<open>struct knet_handle_compress_cfg\<close>.\<close>

record knet_handle_compress_cfg =
  cfg_compress_model :: string
  cfg_compress_level :: int
  cfg_compress_threshold :: nat

record timespec =
  tv_sec :: int
  tv_nsec :: int

subsection \<open>The table of models\<close>

text \<open>
  Modelled from the spec: \<^verbatim>\<open>compress.h\<close> (the declaration of \<^verbatim>\<open>compress_model_t\<close>) and the
  back-ends (\<^verbatim>\<open>compress_zlib.h\<close> and the others) are not among the sources. The fields are
  those of the initialisers at lines 49-89, in their order; \<open>model_id\<close> is an unsigned
  byte, \<open>built_in\<close> and \<open>loaded\<close> are the flags the code compares with 0 and 1, and
  \<open>libref\<close> is an unsigned byte counter. A function pointer is an \<open>option\<close>, \<open>None\<close>
  for NULL. The hooks have the signatures of the spec's section 4.1; a hook that returns
  an \<^verbatim>\<open>int\<close> and may fail returns the value of \<^verbatim>\<open>errno\<close> it leaves as well. The three
  field names that clash with functions of compress.c carry the suffix \<open>_fn\<close>.
\<close>

type_synonym transform =
  "knet_handle \<Rightarrow> buf \<Rightarrow> int \<Rightarrow> buf \<Rightarrow> int \<Rightarrow> int \<times> int \<times> buf \<times> int"

record compress_model_t =
  model_name :: "string option"
  model_id :: nat
  built_in :: bool
  load_lib :: "(knet_handle \<Rightarrow> int \<times> int) option"
  unload_lib :: "(knet_handle \<Rightarrow> unit) option"
  loaded :: bool
  libref :: "8 word"
  is_init :: "(knet_handle \<Rightarrow> int \<Rightarrow> int) option"
  init :: "(knet_handle \<Rightarrow> int \<Rightarrow> int \<times> int \<times> knet_handle) option"
  fini :: "(knet_handle \<Rightarrow> int \<Rightarrow> knet_handle) option"
  val_level_fn :: "(knet_handle \<Rightarrow> int \<Rightarrow> int) option"
  compress_fn :: "transform option"
  decompress_fn :: "transform option"

text \<open>The macro \<^verbatim>\<open>empty_module\<close> (line 49), with the name and the id before it.\<close>

definition empty_module :: "string option \<Rightarrow> nat \<Rightarrow> compress_model_t" where
  "empty_module name mid =
     \<lparr>model_name = name, model_id = mid, built_in = False, load_lib = None,
      unload_lib = None, loaded = False, libref = 0, is_init = None, init = None,
      fini = None, val_level_fn = None, compress_fn = None, decompress_fn = None\<rparr>"

text \<open>
  What a build defines: for each \<^verbatim>\<open>BUILDCOMP...\<close> macro, \<open>None\<close> when it is not defined
  and the functions of the back-end when it is.
\<close>

record codec =
  c_load_lib :: "knet_handle \<Rightarrow> int \<times> int"
  c_unload_lib :: "knet_handle \<Rightarrow> unit"
  c_val_level :: "knet_handle \<Rightarrow> int \<Rightarrow> int"
  c_compress :: transform
  c_decompress :: transform

record lz4_codec = codec +
  lz4hc_val_level :: "knet_handle \<Rightarrow> int \<Rightarrow> int"
  lz4hc_compress :: transform

record lzo2_codec = codec +
  lzo2_is_init :: "knet_handle \<Rightarrow> int \<Rightarrow> int"
  lzo2_init :: "knet_handle \<Rightarrow> int \<Rightarrow> int \<times> int \<times> knet_handle"
  lzo2_fini :: "knet_handle \<Rightarrow> int \<Rightarrow> knet_handle"

record build =
  BUILDCOMPZLIB :: "codec option"
  BUILDCOMPLZ4 :: "lz4_codec option"
  BUILDCOMPLZO2 :: "lzo2_codec option"
  BUILDCOMPLZMA :: "codec option"
  BUILDCOMPBZIP2 :: "codec option"

text \<open>A row of a back-end without per-handle init (zlib, lz4, lzma, bzip2).\<close>

definition plain_module ::
  "string \<Rightarrow> nat \<Rightarrow> (knet_handle \<Rightarrow> int \<times> int) \<Rightarrow> (knet_handle \<Rightarrow> unit) \<Rightarrow>
   (knet_handle \<Rightarrow> int \<Rightarrow> int) \<Rightarrow> transform \<Rightarrow> transform \<Rightarrow> compress_model_t" where
  "plain_module name mid ld ul vl co de =
     \<lparr>model_name = Some name, model_id = mid, built_in = True, load_lib = Some ld,
      unload_lib = Some ul, loaded = False, libref = 0, is_init = None, init = None,
      fini = None, val_level_fn = Some vl, compress_fn = Some co, decompress_fn = Some de\<rparr>"

text \<open>The initialiser of \<^verbatim>\<open>compress_modules_cmds[]\<close> (lines 51-90).\<close>

definition compress_modules_cmds_init :: "build \<Rightarrow> compress_model_t list" where
  "compress_modules_cmds_init b =
     [ empty_module (Some ''none'') 0,
       (case BUILDCOMPZLIB b of
          Some c \<Rightarrow> plain_module ''zlib'' 1 (c_load_lib c) (c_unload_lib c)
                      (c_val_level c) (c_compress c) (c_decompress c)
        | None \<Rightarrow> empty_module (Some ''zlib'') 1),
       (case BUILDCOMPLZ4 b of
          Some c \<Rightarrow> plain_module ''lz4'' 2 (c_load_lib c) (c_unload_lib c)
                      (c_val_level c) (c_compress c) (c_decompress c)
        | None \<Rightarrow> empty_module (Some ''lz4'') 2),
       (case BUILDCOMPLZ4 b of
          Some c \<Rightarrow> plain_module ''lz4hc'' 3 (c_load_lib c) (c_unload_lib c)
                      (lz4hc_val_level c) (lz4hc_compress c) (c_decompress c)
        | None \<Rightarrow> empty_module (Some ''lz4hc'') 3),
       (case BUILDCOMPLZO2 b of
          Some c \<Rightarrow>
            \<lparr>model_name = Some ''lzo2'', model_id = 4, built_in = True,
             load_lib = Some (c_load_lib c), unload_lib = Some (c_unload_lib c),
             loaded = False, libref = 0, is_init = Some (lzo2_is_init c),
             init = Some (lzo2_init c), fini = Some (lzo2_fini c),
             val_level_fn = Some (c_val_level c), compress_fn = Some (c_compress c),
             decompress_fn = Some (c_decompress c)\<rparr>
        | None \<Rightarrow> empty_module (Some ''lzo2'') 4),
       (case BUILDCOMPLZMA b of
          Some c \<Rightarrow> plain_module ''lzma'' 5 (c_load_lib c) (c_unload_lib c)
                      (c_val_level c) (c_compress c) (c_decompress c)
        | None \<Rightarrow> empty_module (Some ''lzma'') 5),
       (case BUILDCOMPBZIP2 b of
          Some c \<Rightarrow> plain_module ''bzip2'' 6 (c_load_lib c) (c_unload_lib c)
                      (c_val_level c) (c_compress c) (c_decompress c)
        | None \<Rightarrow> empty_module (Some ''bzip2'') 6),
       empty_module None 255 ]"

subsection \<open>The process-wide state and the outside world\<close>

datatype rwlock = Unlocked | Rd_locked | Wr_locked

text \<open>The messages of the \<^verbatim>\<open>log_err\<close> and \<^verbatim>\<open>log_debug\<close> calls, with their arguments.\<close>

datatype log_msg =
    Unable_to_get_read_lock int
  | Unable_to_get_write_lock int
  | Too_many_compress_methods
  | Initizializing_compress_module string int nat
  | Model_not_supported string
  | Model_not_built_in string
  | Unable_to_load_init string int
  | Level_not_supported int string
  | Threshold_too_high nat
  | Resetting_threshold nat
  | Unloading_library "string option"
  | Unable_to_load_init_compress "string option" int
  | Unknown_compress_model int
  | Received_not_built_in "string option"
  | Unable_to_load_init_decompress "string option" int

datatype log_entry = Log_err log_msg | Log_debug log_msg

text \<open>A call through a function pointer of the row at the given index.\<close>

datatype hook_call =
    Call_load_lib nat
  | Call_unload_lib nat
  | Call_is_init nat
  | Call_init nat
  | Call_fini nat
  | Call_val_level nat
  | Call_compress nat
  | Call_decompress nat

datatype fault =
    NULL_function_call string int
  | Table_index_out_of_bounds int
  | Table_overrun

record compress_state =
  compress_modules_cmds :: "compress_model_t list"
  max_model :: int
  last_load_failure :: timespec
  shlib_rwlock :: rwlock
  errno :: int
  logged :: "log_entry list"
  calls :: "hook_call list"

text \<open>
  What one call of an entry point gets from the outside: the values returned by
  \<^verbatim>\<open>pthread_rwlock_rdlock\<close> and \<^verbatim>\<open>pthread_rwlock_wrlock\<close>, and the two readings of
  \<^verbatim>\<open>CLOCK_MONOTONIC\<close> (line 188, before the rate-limit test, and line 213, after a failed
  load).
\<close>

record env =
  rdlock_ret :: int
  wrlock_ret :: int
  clock_at_check :: timespec
  clock_at_failure :: timespec

text \<open>
  The constants of \<^verbatim>\<open>libknet.h\<close>, which is not among the sources: they are parameters.
\<close>

record knet_consts =
  KNET_MAX_COMPRESS_METHODS :: int
  KNET_MAX_PACKET_SIZE :: nat
  KNET_COMPRESS_THRESHOLD :: nat

definition EINVAL :: int where "EINVAL = 22"

definition EAGAIN :: int where "EAGAIN = 11"

text \<open>The static initial values: \<^verbatim>\<open>max_model = 0\<close>, a zeroed \<^verbatim>\<open>last_load_failure\<close>.\<close>

definition initial_state :: "build \<Rightarrow> compress_state" where
  "initial_state b =
     \<lparr>compress_modules_cmds = compress_modules_cmds_init b, max_model = 0,
      last_load_failure = \<lparr>tv_sec = 0, tv_nsec = 0\<rparr>, shlib_rwlock = Unlocked,
      errno = 0, logged = [], calls = []\<rparr>"

definition row_at :: "compress_model_t list \<Rightarrow> int \<Rightarrow> compress_model_t option" where
  "row_at tbl i = (if 0 \<le> i \<and> nat i < length tbl then Some (tbl ! nat i) else None)"

definition log_add :: "log_entry \<Rightarrow> compress_state \<Rightarrow> compress_state" where
  "log_add m st = st\<lparr>logged := logged st @ [m]\<rparr>"

definition call_add :: "hook_call \<Rightarrow> compress_state \<Rightarrow> compress_state" where
  "call_add c st = st\<lparr>calls := calls st @ [c]\<rparr>"

text \<open>
  Modelled from the spec: \<^verbatim>\<open>timespec_diff\<close> is declared outside the sources. It gives the
  elapsed time between two readings in nanoseconds, as an \<^verbatim>\<open>unsigned long long\<close>.
\<close>

definition timespec_diff :: "timespec \<Rightarrow> timespec \<Rightarrow> int" where
  "timespec_diff start end' =
     ((tv_sec end' - tv_sec start) * 1000000000 + tv_nsec end' - tv_nsec start) mod 2 ^ 64"

definition timespec_is_set :: "timespec \<Rightarrow> bool" where
  "timespec_is_set t = (tv_sec t \<noteq> 0 \<or> tv_nsec t \<noteq> 0)"

subsection \<open>Table scans (lines 95-137)\<close>

text \<open>
  The three loops run over the table until the first row whose \<open>model_name\<close> is NULL.
  A table without such a row would be read past its end.
\<close>

fun get_model :: "compress_model_t list \<Rightarrow> string \<Rightarrow> fault + int" where
  "get_model [] model = Inl Table_overrun"
| "get_model (r # rs) model =
     (case model_name r of
        None \<Rightarrow> Inr (- 1)
      | Some n \<Rightarrow> if n = model then Inr (int (model_id r)) else get_model rs model)"

fun get_max_model_loop :: "compress_model_t list \<Rightarrow> int \<Rightarrow> fault + int" where
  "get_max_model_loop [] idx = Inl Table_overrun"
| "get_max_model_loop (r # rs) idx =
     (case model_name r of
        None \<Rightarrow> Inr (idx - 1)
      | Some n \<Rightarrow> get_max_model_loop rs (idx + 1))"

definition get_max_model :: "compress_model_t list \<Rightarrow> fault + int" where
  "get_max_model tbl = get_max_model_loop tbl 0"

fun is_valid_model :: "compress_model_t list \<Rightarrow> int \<Rightarrow> fault + int" where
  "is_valid_model [] compress_model' = Inl Table_overrun"
| "is_valid_model (r # rs) compress_model' =
     (case model_name r of
        None \<Rightarrow> Inr (- 1)
      | Some n \<Rightarrow>
          if compress_model' = int (model_id r) \<and> built_in r then Inr 0
          else is_valid_model rs compress_model')"

definition val_level ::
  "compress_state \<Rightarrow> knet_handle \<Rightarrow> int \<Rightarrow> int \<Rightarrow> fault + (int \<times> compress_state)" where
  "val_level st h compress_model' compress_level' =
     (case row_at (compress_modules_cmds st) compress_model' of
        None \<Rightarrow> Inl (Table_index_out_of_bounds compress_model')
      | Some r \<Rightarrow>
          (case val_level_fn r of
             None \<Rightarrow> Inl (NULL_function_call ''val_level'' compress_model')
           | Some f \<Rightarrow>
               Inr (f h compress_level', call_add (Call_val_level (nat compress_model')) st)))"

subsection \<open>Ensure-init: \<^verbatim>\<open>check_init_lib\<close> (lines 139-232)\<close>

text \<open>
  Lines 220-231: the per-handle init, then the charge on \<open>libref\<close>. The function is
  entered with the write lock held and returns 0 still holding it.
\<close>

definition check_init_lib_init ::
  "compress_state \<Rightarrow> knet_handle \<Rightarrow> int \<Rightarrow> fault + (int \<times> compress_state \<times> knet_handle)" where
  "check_init_lib_init st h cmp_model =
     (case row_at (compress_modules_cmds st) cmp_model of
        None \<Rightarrow> Inl (Table_index_out_of_bounds cmp_model)
      | Some r \<Rightarrow>
          let charged = st\<lparr>compress_modules_cmds :=
                (compress_modules_cmds st)[nat cmp_model := r\<lparr>libref := libref r + 1\<rparr>]\<rparr>
          in
          (case init r of
             Some f \<Rightarrow>
               (case f h cmp_model of
                  (rc, en, h') \<Rightarrow>
                    if rc < 0 then
                      Inr (- 1, (call_add (Call_init (nat cmp_model)) st)
                                 \<lparr>shlib_rwlock := Unlocked, errno := en\<rparr>, h')
                    else
                      Inr (0, (call_add (Call_init (nat cmp_model)) charged)
                                 \<lparr>errno := en\<rparr>, h'))
           | None \<Rightarrow>
               Inr (0, charged,
                    h\<lparr>compress_int_data := (compress_int_data h)(nat cmp_model := Fake_ref)\<rparr>)))"

text \<open>
  Lines 202-218: the read lock is dropped, the write lock taken, and the library loaded
  when the row is not loaded yet.
\<close>

definition check_init_lib_load ::
  "env \<Rightarrow> compress_state \<Rightarrow> knet_handle \<Rightarrow> int \<Rightarrow>
   fault + (int \<times> compress_state \<times> knet_handle)" where
  "check_init_lib_load e st h cmp_model =
     (if wrlock_ret e \<noteq> 0 then
        Inr (- 1, (log_add (Log_err (Unable_to_get_write_lock (wrlock_ret e))) st)
                   \<lparr>shlib_rwlock := Unlocked, errno := wrlock_ret e\<rparr>, h)
      else
        (case row_at (compress_modules_cmds st) cmp_model of
           None \<Rightarrow> Inl (Table_index_out_of_bounds cmp_model)
         | Some r \<Rightarrow>
             if loaded r then check_init_lib_init (st\<lparr>shlib_rwlock := Wr_locked\<rparr>) h cmp_model
             else
               (case load_lib r of
                  None \<Rightarrow> Inl (NULL_function_call ''load_lib'' cmp_model)
                | Some f \<Rightarrow>
                    if fst (f h) < 0 then
                      Inr (- 1, (call_add (Call_load_lib (nat cmp_model)) st)
                                 \<lparr>last_load_failure := clock_at_failure e,
                                  shlib_rwlock := Unlocked, errno := snd (f h)\<rparr>, h)
                    else
                      check_init_lib_init
                        ((call_add (Call_load_lib (nat cmp_model)) st)
                           \<lparr>compress_modules_cmds :=
                              (compress_modules_cmds st)[nat cmp_model := r\<lparr>loaded := True\<rparr>],
                            shlib_rwlock := Wr_locked, errno := snd (f h)\<rparr>)
                        h cmp_model)))"

text \<open>
  Lines 162-172: the row is loaded and initialised for this handle. The call of
  \<open>is_init\<close> made by the test is recorded by \<open>after_is_init\<close>.
\<close>

definition already_init :: "compress_model_t \<Rightarrow> knet_handle \<Rightarrow> int \<Rightarrow> bool" where
  "already_init r h cmp_model =
     (loaded r \<and>
      (case is_init r of
         None \<Rightarrow> compress_int_data h (nat cmp_model) \<noteq> NULL
       | Some f \<Rightarrow> f h cmp_model = 1))"

definition after_is_init :: "compress_model_t \<Rightarrow> int \<Rightarrow> compress_state \<Rightarrow> compress_state" where
  "after_is_init r cmp_model st =
     (if loaded r \<and> is_init r \<noteq> None then call_add (Call_is_init (nat cmp_model)) st else st)"

text \<open>
  Lines 145-196: the read lock, the fast path for a model that is loaded and initialised
  for this handle, and the rate limit. \<open>rate_limit\<close> is the C \<^verbatim>\<open>int\<close> flag.
\<close>

definition check_init_lib ::
  "env \<Rightarrow> compress_state \<Rightarrow> knet_handle \<Rightarrow> int \<Rightarrow> int \<Rightarrow>
   fault + (int \<times> compress_state \<times> knet_handle)" where
  "check_init_lib e st h cmp_model rate_limit =
     (if rdlock_ret e \<noteq> 0 then
        Inr (- 1, (log_add (Log_err (Unable_to_get_read_lock (rdlock_ret e))) st)
                   \<lparr>errno := rdlock_ret e\<rparr>, h)
      else
        (case row_at (compress_modules_cmds st) cmp_model of
           None \<Rightarrow> Inl (Table_index_out_of_bounds cmp_model)
         | Some r \<Rightarrow>
             let st1 = after_is_init r cmp_model (st\<lparr>shlib_rwlock := Rd_locked\<rparr>) in
             if already_init r h cmp_model then Inr (0, st1, h)
             else if rate_limit \<noteq> 0 \<and> timespec_is_set (last_load_failure st1) \<and>
                     timespec_diff (last_load_failure st1) (clock_at_check e) < 10000000000
             then Inr (- 1, st1\<lparr>shlib_rwlock := Unlocked, errno := EAGAIN\<rparr>, h)
             else check_init_lib_load e st1 h cmp_model))"

subsection \<open>\<^verbatim>\<open>compress_init\<close> (lines 234-247)\<close>

definition compress_init :: "knet_consts \<Rightarrow> compress_state \<Rightarrow> fault + (int \<times> compress_state)" where
  "compress_init K st =
     (case get_max_model (compress_modules_cmds st) of
        Inl f \<Rightarrow> Inl f
      | Inr m \<Rightarrow>
          if m > KNET_MAX_COMPRESS_METHODS K then
            Inr (- 1, (log_add (Log_err Too_many_compress_methods) (st\<lparr>max_model := m\<rparr>))
                       \<lparr>errno := EINVAL\<rparr>)
          else
            Inr (0, st\<lparr>max_model := m, last_load_failure := \<lparr>tv_sec = 0, tv_nsec = 0\<rparr>\<rparr>))"

subsection \<open>\<^verbatim>\<open>compress_cfg\<close> (lines 249-315)\<close>

text \<open>Lines 291-303, reached with the lock held: the threshold, then the commit at 308-311.\<close>

definition compress_cfg_threshold ::
  "knet_consts \<Rightarrow> compress_state \<Rightarrow> knet_handle \<Rightarrow> knet_handle_compress_cfg \<Rightarrow> int \<Rightarrow>
   int \<times> compress_state \<times> knet_handle" where
  "compress_cfg_threshold K st h cfg cmp_model =
     (if cfg_compress_threshold cfg > KNET_MAX_PACKET_SIZE K then
        (- 1, (log_add (Log_err (Threshold_too_high (KNET_MAX_PACKET_SIZE K))) st)
               \<lparr>shlib_rwlock := Unlocked, errno := EINVAL\<rparr>, h)
      else if cfg_compress_threshold cfg = 0 then
        (0, (log_add (Log_debug (Resetting_threshold (KNET_COMPRESS_THRESHOLD K))) st)
             \<lparr>shlib_rwlock := Unlocked, errno := 0\<rparr>,
         h\<lparr>compress_threshold := KNET_COMPRESS_THRESHOLD K, compress_model := cmp_model,
           compress_level := cfg_compress_level cfg\<rparr>)
      else
        (0, st\<lparr>shlib_rwlock := Unlocked, errno := 0\<rparr>,
         h\<lparr>compress_threshold := cfg_compress_threshold cfg, compress_model := cmp_model,
           compress_level := cfg_compress_level cfg\<rparr>))"

definition compress_cfg ::
  "knet_consts \<Rightarrow> env \<Rightarrow> compress_state \<Rightarrow> knet_handle \<Rightarrow> knet_handle_compress_cfg \<Rightarrow>
   fault + (int \<times> compress_state \<times> knet_handle)" where
  "compress_cfg K e st h cfg =
     (let st0 = log_add (Log_debug (Initizializing_compress_module (cfg_compress_model cfg)
                  (cfg_compress_level cfg) (cfg_compress_threshold cfg))) st
      in
      case get_model (compress_modules_cmds st0) (cfg_compress_model cfg) of
        Inl f \<Rightarrow> Inl f
      | Inr cmp_model \<Rightarrow>
          if cmp_model < 0 then
            Inr (- 1, (log_add (Log_err (Model_not_supported (cfg_compress_model cfg))) st0)
                       \<lparr>errno := EINVAL\<rparr>, h)
          else if cmp_model > 0 then
            (case row_at (compress_modules_cmds st0) cmp_model of
               None \<Rightarrow> Inl (Table_index_out_of_bounds cmp_model)
             | Some r \<Rightarrow>
                 if \<not> built_in r then
                   Inr (- 1, (log_add (Log_err (Model_not_built_in (cfg_compress_model cfg))) st0)
                              \<lparr>errno := EINVAL\<rparr>, h)
                 else
                   (case check_init_lib e st0 h cmp_model 0 of
                      Inl f \<Rightarrow> Inl f
                    | Inr (rc, st1, h1) \<Rightarrow>
                        if rc < 0 then
                          Inr (- 1, (log_add (Log_err (Unable_to_load_init
                                       (cfg_compress_model cfg) (errno st1))) st1)
                                     \<lparr>shlib_rwlock := Unlocked, errno := errno st1\<rparr>, h1)
                        else
                          (case val_level st1 h1 cmp_model (cfg_compress_level cfg) of
                             Inl f \<Rightarrow> Inl f
                           | Inr (lv, st2) \<Rightarrow>
                               if lv < 0 then
                                 Inr (- 1, (log_add (Log_err (Level_not_supported
                                              (cfg_compress_level cfg) (cfg_compress_model cfg))) st2)
                                            \<lparr>shlib_rwlock := Unlocked, errno := EINVAL\<rparr>, h1)
                               else Inr (compress_cfg_threshold K st2 h1 cfg cmp_model))))
          else
            Inr (0, st0\<lparr>errno := 0\<rparr>,
                 h\<lparr>compress_model := cmp_model, compress_level := cfg_compress_level cfg\<rparr>))"

subsection \<open>\<^verbatim>\<open>compress_fini\<close> (lines 317-353)\<close>

text \<open>Lines 334-346: what the loop does to a row that passes the test of lines 331-333.\<close>

definition fini_row ::
  "compress_state \<Rightarrow> knet_handle \<Rightarrow> nat \<Rightarrow> fault + (compress_state \<times> knet_handle)" where
  "fini_row st h idx =
     (let r = compress_modules_cmds st ! idx;
          st1 = (case fini r of Some f \<Rightarrow> call_add (Call_fini idx) st | None \<Rightarrow> st);
          h1 = (case fini r of
                  Some f \<Rightarrow> f h (int idx)
                | None \<Rightarrow> h\<lparr>compress_int_data := (compress_int_data h)(idx := NULL)\<rparr>);
          r1 = r\<lparr>libref := libref r - 1\<rparr>;
          st2 = st1\<lparr>compress_modules_cmds := (compress_modules_cmds st1)[idx := r1]\<rparr>
      in
      if libref r1 = 0 \<and> loaded r1 then
        (case unload_lib r1 of
           None \<Rightarrow> Inl (NULL_function_call ''unload_lib'' (int idx))
         | Some u \<Rightarrow>
             Inr ((call_add (Call_unload_lib idx)
                     (log_add (Log_debug (Unloading_library (model_name r1))) st2))
                    \<lparr>compress_modules_cmds :=
                       (compress_modules_cmds st2)[idx := r1\<lparr>loaded := False\<rparr>]\<rparr>, h1))
      else Inr (st2, h1))"

text \<open>The loop of lines 330-349, from the index \<open>idx\<close> on.\<close>

function fini_loop ::
  "knet_consts \<Rightarrow> nat \<Rightarrow> compress_state \<Rightarrow> knet_handle \<Rightarrow>
   fault + (compress_state \<times> knet_handle)" where
  "fini_loop K idx st h =
     (if length (compress_modules_cmds st) \<le> idx then Inl Table_overrun
      else
        (case model_name (compress_modules_cmds st ! idx) of
           None \<Rightarrow> Inr (st, h)
         | Some n \<Rightarrow>
             if built_in (compress_modules_cmds st ! idx) \<and>
                loaded (compress_modules_cmds st ! idx) \<and>
                int idx < KNET_MAX_COMPRESS_METHODS K
             then
               (case fini_row st h idx of
                  Inl f \<Rightarrow> Inl f
                | Inr (st', h') \<Rightarrow> fini_loop K (idx + 1) st' h')
             else fini_loop K (idx + 1) st h))"
  by pat_completeness auto
termination
  by (relation "measure (\<lambda>(K, idx, st, h). length (compress_modules_cmds st) - idx)")
     (auto simp: fini_row_def Let_def call_add_def log_add_def split: if_splits option.splits)

declare fini_loop.simps [simp del]

definition compress_fini ::
  "knet_consts \<Rightarrow> env \<Rightarrow> compress_state \<Rightarrow> knet_handle \<Rightarrow>
   fault + (compress_state \<times> knet_handle)" where
  "compress_fini K e st h =
     (if wrlock_ret e \<noteq> 0 then
        Inr (log_add (Log_err (Unable_to_get_write_lock (wrlock_ret e))) st, h)
      else
        (case fini_loop K 0 (st\<lparr>shlib_rwlock := Wr_locked\<rparr>) h of
           Inl f \<Rightarrow> Inl f
         | Inr (st', h') \<Rightarrow> Inr (st'\<lparr>shlib_rwlock := Unlocked\<rparr>, h')))"

subsection \<open>The transforms: \<^verbatim>\<open>compress\<close> and \<^verbatim>\<open>decompress\<close> (lines 355-416)\<close>

text \<open>
  A transform takes the input buffer and its length, the output buffer and the value of
  \<^verbatim>\<open>*buf_out_len\<close>, and returns the output buffer and length with the returned value.
\<close>

definition compress ::
  "env \<Rightarrow> compress_state \<Rightarrow> knet_handle \<Rightarrow> buf \<Rightarrow> int \<Rightarrow> buf \<Rightarrow> int \<Rightarrow>
   fault + (int \<times> compress_state \<times> knet_handle \<times> buf \<times> int)" where
  "compress e st h buf_in buf_in_len buf_out buf_out_len =
     (case check_init_lib e st h (compress_model h) 0 of
        Inl f \<Rightarrow> Inl f
      | Inr (rc, st1, h1) \<Rightarrow>
          (case row_at (compress_modules_cmds st1) (compress_model h1) of
             None \<Rightarrow> Inl (Table_index_out_of_bounds (compress_model h1))
           | Some r \<Rightarrow>
               if rc < 0 then
                 Inr (- 1, log_add (Log_err (Unable_to_load_init_compress (model_name r)
                             (errno st1))) st1, h1, buf_out, buf_out_len)
               else
                 (case compress_fn r of
                    None \<Rightarrow> Inl (NULL_function_call ''compress'' (compress_model h1))
                  | Some f \<Rightarrow>
                      (case f h1 buf_in buf_in_len buf_out buf_out_len of
                         (err, en, out, out_len) \<Rightarrow>
                           Inr (err, (call_add (Call_compress (nat (compress_model h1))) st1)
                                      \<lparr>shlib_rwlock := Unlocked, errno := en\<rparr>,
                                h1, out, out_len)))))"

definition decompress ::
  "env \<Rightarrow> compress_state \<Rightarrow> knet_handle \<Rightarrow> int \<Rightarrow> buf \<Rightarrow> int \<Rightarrow> buf \<Rightarrow> int \<Rightarrow>
   fault + (int \<times> compress_state \<times> knet_handle \<times> buf \<times> int)" where
  "decompress e st h compress_model' buf_in buf_in_len buf_out buf_out_len =
     (if compress_model' > max_model st then
        Inr (- 1, (log_add (Log_err (Unknown_compress_model compress_model')) st)
                   \<lparr>errno := EINVAL\<rparr>, h, buf_out, buf_out_len)
      else
        (case is_valid_model (compress_modules_cmds st) compress_model' of
           Inl f \<Rightarrow> Inl f
         | Inr v \<Rightarrow>
             if v < 0 then
               (case row_at (compress_modules_cmds st) compress_model' of
                  None \<Rightarrow> Inl (Table_index_out_of_bounds compress_model')
                | Some r \<Rightarrow>
                    Inr (- 1, (log_add (Log_err (Received_not_built_in (model_name r))) st)
                               \<lparr>errno := EINVAL\<rparr>, h, buf_out, buf_out_len))
             else
               (case check_init_lib e st h compress_model' 1 of
                  Inl f \<Rightarrow> Inl f
                | Inr (rc, st1, h1) \<Rightarrow>
                    (case row_at (compress_modules_cmds st1) compress_model' of
                       None \<Rightarrow> Inl (Table_index_out_of_bounds compress_model')
                     | Some r \<Rightarrow>
                         if rc < 0 then
                           Inr (- 1, log_add (Log_err (Unable_to_load_init_decompress
                                       (model_name r) (errno st1))) st1, h1, buf_out, buf_out_len)
                         else
                           (case decompress_fn r of
                              None \<Rightarrow> Inl (NULL_function_call ''decompress'' compress_model')
                            | Some f \<Rightarrow>
                                (case f h1 buf_in buf_in_len buf_out buf_out_len of
                                   (err, en, out, out_len) \<Rightarrow>
                                     Inr (err, (call_add (Call_decompress (nat compress_model')) st1)
                                                \<lparr>shlib_rwlock := Unlocked, errno := en\<rparr>,
                                          h1, out, out_len)))))))"

subsection \<open>A simulated build, for the examples\<close>

text \<open>
  A back-end double in the sense of the spec's section 9: \<open>load_lib\<close> succeeds or fails
  as the flag says (a failure leaves \<^verbatim>\<open>errno\<close> at 2), levels 0 to 9 are accepted, and
  the transforms copy the input.
\<close>

definition stub_transform :: transform where
  "stub_transform h buf_in buf_in_len buf_out buf_out_len = (0, 0, buf_in, buf_in_len)"

definition stub_codec :: "bool \<Rightarrow> codec" where
  "stub_codec loads =
     \<lparr>c_load_lib = (\<lambda>h. if loads then (0, 0) else (- 1, 2)),
      c_unload_lib = (\<lambda>h. ()),
      c_val_level = (\<lambda>h l. if 0 \<le> l \<and> l \<le> 9 then 0 else - 1),
      c_compress = stub_transform, c_decompress = stub_transform\<rparr>"

text \<open>zlib and bzip2 are built in and load; lzma is built in and fails to load.\<close>

definition test_build :: build where
  "test_build =
     \<lparr>BUILDCOMPZLIB = Some (stub_codec True), BUILDCOMPLZ4 = None, BUILDCOMPLZO2 = None,
      BUILDCOMPLZMA = Some (stub_codec False), BUILDCOMPBZIP2 = Some (stub_codec True)\<rparr>"

definition test_consts :: knet_consts where
  "test_consts =
     \<lparr>KNET_MAX_COMPRESS_METHODS = 255, KNET_MAX_PACKET_SIZE = 65536,
      KNET_COMPRESS_THRESHOLD = 100\<rparr>"

text \<open>Both locks are granted; the clock reads \<open>s\<close> seconds.\<close>

definition env_at :: "int \<Rightarrow> env" where
  "env_at s =
     \<lparr>rdlock_ret = 0, wrlock_ret = 0, clock_at_check = \<lparr>tv_sec = s, tv_nsec = 0\<rparr>,
      clock_at_failure = \<lparr>tv_sec = s, tv_nsec = 0\<rparr>\<rparr>"

text \<open>A handle that was never configured.\<close>

definition fresh_handle :: knet_handle where
  "fresh_handle =
     \<lparr>compress_model = 0, compress_level = 0, compress_threshold = 0,
      compress_int_data = (\<lambda>i. NULL)\<rparr>"

text \<open>The state after \<^verbatim>\<open>compress_init\<close> on the simulated build.\<close>

definition ready_state :: compress_state where
  "ready_state = (initial_state test_build)\<lparr>max_model := 6\<rparr>"

text \<open>
  The states and handles of the examples. \<open>zlib_cfg t\<close> asks for zlib at level 6 with
  the threshold \<open>t\<close>; \<open>zlib_loaded t\<close> and \<open>zlib_charged\<close> are the state and the handle
  that \<open>check_init_lib\<close> leaves during that call; \<open>zlib_user\<close> and \<open>zlib_state\<close> are
  the handle and the state after the call with the threshold 1024. \<open>bzip2_cfg\<close> asks
  for bzip2 at the level 42, which the double rejects, and \<open>lzma_cfg\<close> for lzma, which
  fails to load; both with the threshold 0.
\<close>

definition zlib_cfg :: "nat \<Rightarrow> knet_handle_compress_cfg" where
  "zlib_cfg t = \<lparr>cfg_compress_model = ''zlib'', cfg_compress_level = 6, cfg_compress_threshold = t\<rparr>"

definition zlib_charged :: knet_handle where
  "zlib_charged = fresh_handle\<lparr>compress_int_data := (\<lambda>i. NULL)(1 := Fake_ref)\<rparr>"

definition zlib_loaded :: "nat \<Rightarrow> compress_state" where
  "zlib_loaded t =
     ready_state\<lparr>compress_modules_cmds :=
         (compress_modules_cmds ready_state)
           [1 := (compress_modules_cmds ready_state ! 1)\<lparr>loaded := True, libref := 1\<rparr>],
       shlib_rwlock := Wr_locked,
       logged := [Log_debug (Initizializing_compress_module ''zlib'' 6 t)],
       calls := [Call_load_lib 1]\<rparr>"

definition zlib_user :: knet_handle where
  "zlib_user = zlib_charged\<lparr>compress_model := 1, compress_level := 6, compress_threshold := 1024\<rparr>"

definition zlib_state :: compress_state where
  "zlib_state = (call_add (Call_val_level 1) (zlib_loaded 1024))\<lparr>shlib_rwlock := Unlocked\<rparr>"

definition bzip2_cfg :: knet_handle_compress_cfg where
  "bzip2_cfg = \<lparr>cfg_compress_model = ''bzip2'', cfg_compress_level = 42, cfg_compress_threshold = 0\<rparr>"

definition lzma_cfg :: knet_handle_compress_cfg where
  "lzma_cfg = \<lparr>cfg_compress_model = ''lzma'', cfg_compress_level = 6, cfg_compress_threshold = 0\<rparr>"

definition bzip2_charged :: knet_handle where
  "bzip2_charged = fresh_handle\<lparr>compress_int_data := (\<lambda>i. NULL)(6 := Fake_ref)\<rparr>"

definition bzip2_loaded :: compress_state where
  "bzip2_loaded =
     ready_state\<lparr>compress_modules_cmds :=
         (compress_modules_cmds ready_state)
           [6 := (compress_modules_cmds ready_state ! 6)\<lparr>loaded := True, libref := 1\<rparr>],
       shlib_rwlock := Wr_locked,
       logged := [Log_debug (Initizializing_compress_module ''bzip2'' 42 0)],
       calls := [Call_load_lib 6]\<rparr>"

text \<open>
  \<open>lzma_failed\<close> is the state after a first attempt to load lzma, at second 5, has
  failed; \<open>throttled_state\<close> is \<open>zlib_state\<close> after a decompress call for lzma,
  at second 5, has failed to load it;
  \<open>zlib_unloaded\<close> is \<open>zlib_state\<close> after the zlib row was released and unloaded.
\<close>

definition lzma_failed :: compress_state where
  "lzma_failed =
     ready_state\<lparr>last_load_failure := \<lparr>tv_sec = 5, tv_nsec = 0\<rparr>, errno := 2,
       calls := [Call_load_lib 5]\<rparr>"

definition throttled_state :: compress_state where
  "throttled_state =
     zlib_state\<lparr>last_load_failure := \<lparr>tv_sec = 5, tv_nsec = 0\<rparr>, errno := 2,
       logged := logged zlib_state @ [Log_err (Unable_to_load_init_decompress (Some ''lzma'') 2)],
       calls := calls zlib_state @ [Call_load_lib 5]\<rparr>"

definition zlib_unloaded :: compress_state where
  "zlib_unloaded =
     zlib_state\<lparr>compress_modules_cmds :=
         (compress_modules_cmds zlib_state)
           [1 := (compress_modules_cmds zlib_state ! 1)\<lparr>loaded := False, libref := 0\<rparr>],
       logged := logged zlib_state @ [Log_debug (Unloading_library (Some ''zlib''))],
       calls := calls zlib_state @ [Call_unload_lib 1]\<rparr>"

subsection \<open>Predicates on tables\<close>

text \<open>The fields of a row that no function of compress.c writes.\<close>

definition static_part :: "compress_model_t \<Rightarrow> string option \<times> nat \<times> bool" where
  "static_part r = (model_name r, model_id r, built_in r)"

definition named_rows :: "compress_model_t list \<Rightarrow> compress_model_t list" where
  "named_rows tbl = takeWhile (\<lambda>r. model_name r \<noteq> None) tbl"

text \<open>
  The layout the table has by construction: a row with a NULL name ends it, and the
  \<open>model_id\<close> of every row before that is the row's index (the ids are used as indices
  at lines 136, 162-229, 268 and 397-409).
\<close>

definition table_wf :: "compress_model_t list \<Rightarrow> bool" where
  "table_wf tbl =
     (length (named_rows tbl) < length tbl \<and>
      map model_id (named_rows tbl) = [0..<length (named_rows tbl)])"

text \<open>
  Whether a call of \<open>compress\<close> from the state \<open>st\<close> ended with a call of the row's
  \<open>compress\<close> operation.
\<close>

definition compress_called ::
  "compress_state \<Rightarrow> fault + (int \<times> compress_state \<times> knet_handle \<times> buf \<times> int) \<Rightarrow> bool" where
  "compress_called st res =
     (case res of
        Inl f \<Rightarrow> False
      | Inr (rc, st', h', out, out_len) \<Rightarrow>
          length (calls st) < length (calls st') \<and>
          last (calls st') = Call_compress (nat (compress_model h')))"

text \<open>Invariant 2 of the spec: a row with a charge is loaded.\<close>

definition libref_inv :: "compress_model_t list \<Rightarrow> bool" where
  "libref_inv tbl = list_all (\<lambda>r. 0 < libref r \<longrightarrow> loaded r) tbl"

section \<open>Basic facts\<close>

lemmas test_defs =
  ready_state_def initial_state_def compress_modules_cmds_init_def test_build_def
  test_consts_def empty_module_def plain_module_def stub_codec_def stub_transform_def
  env_at_def fresh_handle_def

lemmas run_defs =
  check_init_lib_def check_init_lib_load_def check_init_lib_init_def already_init_def
  after_is_init_def val_level_def row_at_def log_add_def call_add_def
  timespec_is_set_def timespec_diff_def

lemma log_add_fields [simp]:
  "compress_modules_cmds (log_add x st) = compress_modules_cmds st"
  "max_model (log_add x st) = max_model st"
  "last_load_failure (log_add x st) = last_load_failure st"
  "shlib_rwlock (log_add x st) = shlib_rwlock st"
  "errno (log_add x st) = errno st"
  "calls (log_add x st) = calls st"
  "logged (log_add x st) = logged st @ [x]"
  by (simp_all add: log_add_def)

lemma call_add_fields [simp]:
  "compress_modules_cmds (call_add c st) = compress_modules_cmds st"
  "max_model (call_add c st) = max_model st"
  "last_load_failure (call_add c st) = last_load_failure st"
  "shlib_rwlock (call_add c st) = shlib_rwlock st"
  "errno (call_add c st) = errno st"
  "logged (call_add c st) = logged st"
  "calls (call_add c st) = calls st @ [c]"
  by (simp_all add: call_add_def)

lemma after_is_init_fields [simp]:
  "compress_modules_cmds (after_is_init r m st) = compress_modules_cmds st"
  "max_model (after_is_init r m st) = max_model st"
  "last_load_failure (after_is_init r m st) = last_load_failure st"
  "shlib_rwlock (after_is_init r m st) = shlib_rwlock st"
  "errno (after_is_init r m st) = errno st"
  "logged (after_is_init r m st) = logged st"
  by (simp_all add: after_is_init_def)

lemma row_at_update:
  "row_at tbl m = Some r \<Longrightarrow> row_at (tbl[nat m := r']) m = Some r'"
  by (auto simp: row_at_def split: if_splits)

section \<open>Properties of the table scans\<close>

lemma is_valid_model_static:
  "map static_part t1 = map static_part t2 \<Longrightarrow> is_valid_model t1 m = is_valid_model t2 m"
proof (induction t1 arbitrary: t2)
  case Nil
  then show ?case by simp
next
  case (Cons r rs)
  then obtain r' rs' where t2: "t2 = r' # rs'" by (cases t2) auto
  with Cons.prems have "static_part r = static_part r'" "map static_part rs = map static_part rs'"
    by auto
  moreover have "is_valid_model rs m = is_valid_model rs' m"
    using Cons.IH[of rs'] calculation by simp
  ultimately show ?case
    unfolding t2 by (auto simp: static_part_def split: option.splits)
qed

lemma is_valid_model_none_init: "is_valid_model (compress_modules_cmds_init b) 0 = Inr (- 1)"
  by (simp add: compress_modules_cmds_init_def empty_module_def plain_module_def
      split: option.splits)

lemma is_valid_model_offset:
  "length (takeWhile (\<lambda>r. model_name r \<noteq> None) rs) < length rs \<Longrightarrow>
   map model_id (takeWhile (\<lambda>r. model_name r \<noteq> None) rs) =
     [k..<k + length (takeWhile (\<lambda>r. model_name r \<noteq> None) rs)] \<Longrightarrow>
   (\<And>j. j < length rs \<Longrightarrow> m = int (k + j) \<Longrightarrow> \<not> built_in (rs ! j)) \<Longrightarrow>
   is_valid_model rs m = Inr (- 1)"
proof (induction rs arbitrary: k)
  case Nil
  then show ?case by simp
next
  case (Cons r rs)
  show ?case
  proof (cases "model_name r")
    case None
    then show ?thesis by simp
  next
    case (Some n)
    have idr: "model_id r = k" using Cons.prems(2) Some by (simp add: upt_rec)
    have nb: "m = int k \<Longrightarrow> \<not> built_in r" using Cons.prems(3)[of 0] by simp
    have rest: "is_valid_model rs m = Inr (- 1)"
    proof (rule Cons.IH[of "Suc k"])
      show "length (takeWhile (\<lambda>r. model_name r \<noteq> None) rs) < length rs"
        using Cons.prems(1) Some by simp
      show "map model_id (takeWhile (\<lambda>r. model_name r \<noteq> None) rs) =
            [Suc k..<Suc k + length (takeWhile (\<lambda>r. model_name r \<noteq> None) rs)]"
        using Cons.prems(2) Some by (simp add: upt_rec)
      show "\<And>j. j < length rs \<Longrightarrow> m = int (Suc k + j) \<Longrightarrow> \<not> built_in (rs ! j)"
        using Cons.prems(3)[of "Suc j" for j] by simp
    qed
    show ?thesis using Some idr nb rest by auto
  qed
qed

lemma is_valid_model_not_built_in:
  assumes "table_wf tbl" "row_at tbl m = Some r" "\<not> built_in r"
  shows "is_valid_model tbl m = Inr (- 1)"
proof (rule is_valid_model_offset[of tbl 0 m])
  show "length (takeWhile (\<lambda>r. model_name r \<noteq> None) tbl) < length tbl"
    using assms(1) by (simp add: table_wf_def named_rows_def)
  show "map model_id (takeWhile (\<lambda>r. model_name r \<noteq> None) tbl) =
        [0..<0 + length (takeWhile (\<lambda>r. model_name r \<noteq> None) tbl)]"
    using assms(1) by (simp add: table_wf_def named_rows_def)
  show "\<And>j. j < length tbl \<Longrightarrow> m = int (0 + j) \<Longrightarrow> \<not> built_in (tbl ! j)"
    using assms(2,3) by (auto simp: row_at_def split: if_splits)
qed

lemma table_wf_init: "table_wf (compress_modules_cmds_init b)"
  by (simp add: table_wf_def named_rows_def compress_modules_cmds_init_def empty_module_def
      plain_module_def upt_rec split: option.splits)

lemma compress_init_ready:
  "compress_init test_consts (initial_state test_build) = Inr (0, ready_state)"
  by (simp add: compress_init_def get_max_model_def initial_state_def ready_state_def
      compress_modules_cmds_init_def test_build_def test_consts_def empty_module_def
      plain_module_def)

lemma ready_rows:
  "row_at (compress_modules_cmds ready_state) 2 = Some (empty_module (Some ''lz4'') 2)"
  by (simp add: ready_state_def initial_state_def compress_modules_cmds_init_def
      test_build_def row_at_def)

section \<open>Validation on the receive path\<close>

text \<open>
  Claim C10. A call \<open>decompress(handle, 0, ...)\<close> returns -1 with \<^verbatim>\<open>errno = EINVAL\<close>
  through the not-built-in test of lines 396-400, because the row "none" of the table has
  \<open>built_in = 0\<close>. This holds for every build and for every state whose table has the
  names, ids and \<open>built_in\<close> flags of the initialiser, with \<open>max_model\<close> not negative
  (it is 0 before \<^verbatim>\<open>compress_init\<close> and 6 after it). Nothing but \<^verbatim>\<open>errno\<close> and the log
  changes.
\<close>

theorem decompress_none_einval:
  assumes "map static_part (compress_modules_cmds st) =
           map static_part (compress_modules_cmds_init b)"
    and "0 \<le> max_model st"
  shows "decompress e st h 0 buf_in buf_in_len buf_out buf_out_len =
           Inr (- 1, (log_add (Log_err (Received_not_built_in (Some ''none''))) st)
                      \<lparr>errno := EINVAL\<rparr>, h, buf_out, buf_out_len)"
proof -
  have valid: "is_valid_model (compress_modules_cmds st) 0 = Inr (- 1)"
    using is_valid_model_static[OF assms(1)] is_valid_model_none_init by simp
  have len: "length (compress_modules_cmds st) = 8"
    using arg_cong[OF assms(1), of length] by (simp add: compress_modules_cmds_init_def)
  have "static_part (compress_modules_cmds st ! 0) =
        static_part (compress_modules_cmds_init b ! 0)"
    using arg_cong[OF assms(1), of "\<lambda>xs. xs ! 0"] len
    by (simp add: compress_modules_cmds_init_def)
  then have name: "model_name (compress_modules_cmds st ! 0) = Some ''none''"
    by (simp add: static_part_def compress_modules_cmds_init_def empty_module_def)
  have row: "row_at (compress_modules_cmds st) 0 = Some (compress_modules_cmds st ! 0)"
    using len by (simp add: row_at_def)
  show ?thesis
    using assms(2) valid row name by (simp add: decompress_def)
qed

theorem decompress_none_einval_witness:
  "decompress (env_at 1) ready_state fresh_handle 0 [1, 2, 3] 3 [] 0 =
     Inr (- 1, (log_add (Log_err (Received_not_built_in (Some ''none''))) ready_state)
                \<lparr>errno := EINVAL\<rparr>, fresh_handle, [], 0)"
  using decompress_none_einval[of ready_state test_build "env_at 1" fresh_handle
          "[1, 2, 3]" 3 "[]" 0]
  by (simp add: ready_state_def initial_state_def)

text \<open>
  Claim C2. A call of \<open>decompress\<close> with a \<open>model_id\<close> above \<open>max_model\<close>, or with a
  \<open>model_id\<close> whose row has \<open>built_in = 0\<close>, returns -1 with \<^verbatim>\<open>errno = EINVAL\<close> and logs
  a message: "unknown compress model" with the id in the first case, "support is not
  built in" with the name of the row in the second. The returned state is the state of the
  call with that log line and \<^verbatim>\<open>errno\<close> only: the table (so every \<open>libref\<close> and
  \<open>loaded\<close>), the list of calls made through the rows (so no load is attempted), the lock
  and the handle are as they were. The second case is stated for a table with the layout
  \<open>table_wf\<close>, where the row of an id is the row at that index.
\<close>

theorem decompress_rejects_invalid_model:
  "(max_model st < m \<longrightarrow>
      decompress e st h m buf_in buf_in_len buf_out buf_out_len =
        Inr (- 1, (log_add (Log_err (Unknown_compress_model m)) st)\<lparr>errno := EINVAL\<rparr>,
             h, buf_out, buf_out_len)) \<and>
   (m \<le> max_model st \<and> table_wf (compress_modules_cmds st) \<and>
    row_at (compress_modules_cmds st) m = Some r \<and> \<not> built_in r \<longrightarrow>
      decompress e st h m buf_in buf_in_len buf_out buf_out_len =
        Inr (- 1, (log_add (Log_err (Received_not_built_in (model_name r))) st)
                   \<lparr>errno := EINVAL\<rparr>, h, buf_out, buf_out_len))"
  by (auto simp: decompress_def dest: is_valid_model_not_built_in)

theorem decompress_rejects_invalid_model_witness:
  "decompress (env_at 1) ready_state fresh_handle 200 [1, 2, 3] 3 [] 0 =
     Inr (- 1, (log_add (Log_err (Unknown_compress_model 200)) ready_state)
                \<lparr>errno := EINVAL\<rparr>, fresh_handle, [], 0) \<and>
   decompress (env_at 1) ready_state fresh_handle 2 [1, 2, 3] 3 [] 0 =
     Inr (- 1, (log_add (Log_err (Received_not_built_in (Some ''lz4''))) ready_state)
                \<lparr>errno := EINVAL\<rparr>, fresh_handle, [], 0)"
  using decompress_rejects_invalid_model[of ready_state 200 "env_at 1" fresh_handle
          "[1, 2, 3]" 3 "[]" 0 "empty_module (Some ''lz4'') 2"]
        decompress_rejects_invalid_model[of ready_state 2 "env_at 1" fresh_handle
          "[1, 2, 3]" 3 "[]" 0 "empty_module (Some ''lz4'') 2"]
        ready_rows table_wf_init[of test_build]
  by (simp add: ready_state_def initial_state_def empty_module_def)

section \<open>Ensure-init takes one charge\<close>

lemma check_init_lib_init_charge:
  assumes "check_init_lib_init st h m = Inr (rc, st1, h1)" and "0 \<le> rc"
    and "row_at (compress_modules_cmds st) m = Some r"
  shows "compress_modules_cmds st1 = (compress_modules_cmds st)[nat m := r\<lparr>libref := libref r + 1\<rparr>]"
  using assms
  by (auto simp: check_init_lib_init_def Let_def
      split: option.splits prod.splits if_splits)

lemma check_init_lib_load_charge:
  assumes "check_init_lib_load e st h m = Inr (rc, st1, h1)" and "0 \<le> rc"
    and "row_at (compress_modules_cmds st) m = Some r"
  shows "compress_modules_cmds st1 =
           (compress_modules_cmds st)[nat m := r\<lparr>loaded := True, libref := libref r + 1\<rparr>]"
proof (cases "loaded r")
  case True
  then have r: "r\<lparr>loaded := True\<rparr> = r" by simp
  have "check_init_lib_init (st\<lparr>shlib_rwlock := Wr_locked\<rparr>) h m = Inr (rc, st1, h1)"
    using assms True by (simp add: check_init_lib_load_def split: if_splits)
  from check_init_lib_init_charge[OF this assms(2), of r] assms(3) True show ?thesis
    by (simp add: r)
next
  case False
  from assms False obtain f where f: "load_lib r = Some f" "\<not> fst (f h) < 0"
    and run: "check_init_lib_init
                ((call_add (Call_load_lib (nat m)) st)
                   \<lparr>compress_modules_cmds :=
                      (compress_modules_cmds st)[nat m := r\<lparr>loaded := True\<rparr>],
                    shlib_rwlock := Wr_locked, errno := snd (f h)\<rparr>) h m = Inr (rc, st1, h1)"
    by (auto simp: check_init_lib_load_def split: if_splits option.splits)
  from check_init_lib_init_charge[OF run assms(2), of "r\<lparr>loaded := True\<rparr>"]
    row_at_update[OF assms(3)]
  show ?thesis by simp
qed

lemma check_init_lib_charge:
  assumes "check_init_lib e st h m rl = Inr (rc, st1, h1)" and "0 \<le> rc"
    and "row_at (compress_modules_cmds st) m = Some r" and "\<not> already_init r h m"
  shows "compress_modules_cmds st1 =
           (compress_modules_cmds st)[nat m := r\<lparr>loaded := True, libref := libref r + 1\<rparr>]"
proof -
  have "check_init_lib_load e (after_is_init r m (st\<lparr>shlib_rwlock := Rd_locked\<rparr>)) h m =
          Inr (rc, st1, h1)"
    using assms by (simp add: check_init_lib_def Let_def split: if_splits)
  from check_init_lib_load_charge[OF this assms(2), of r] assms(3) show ?thesis by simp
qed

text \<open>
  After a successful return of ensure-init the row is loaded; so a successful
  \<open>compress_cfg\<close> for a model other than "none" leaves in the handle the id of a
  built-in, loaded row.
\<close>

lemma check_init_lib_success_loaded:
  assumes "check_init_lib e st h m rl = Inr (rc, st1, h1)" and "0 \<le> rc"
    and "row_at (compress_modules_cmds st) m = Some r"
  shows "\<exists>r1. row_at (compress_modules_cmds st1) m = Some r1 \<and> loaded r1 \<and>
              load_lib r1 = load_lib r \<and> built_in r1 = built_in r"
proof (cases "already_init r h m")
  case True
  with assms show ?thesis
    by (auto simp: check_init_lib_def Let_def already_init_def split: if_splits)
next
  case False
  from check_init_lib_charge[OF assms False] row_at_update[OF assms(3)]
  show ?thesis by simp
qed

lemma compress_cfg_success_loaded:
  assumes "compress_cfg K e st h cfg = Inr (rc, st', h')" and "0 \<le> rc"
    and "compress_model h' \<noteq> 0"
  shows "\<exists>r. row_at (compress_modules_cmds st') (compress_model h') = Some r \<and>
             loaded r \<and> built_in r"
proof -
  let ?st0 = "log_add (Log_debug (Initizializing_compress_module (cfg_compress_model cfg)
              (cfg_compress_level cfg) (cfg_compress_threshold cfg))) st"
  from assms obtain m r rc1 st1 h1 lv st2 where
    m: "0 < m" "row_at (compress_modules_cmds ?st0) m = Some r" "built_in r"
    and ci: "check_init_lib e ?st0 h m 0 = Inr (rc1, st1, h1)" "\<not> rc1 < 0"
    and vl: "val_level st1 h1 m (cfg_compress_level cfg) = Inr (lv, st2)"
    and res: "compress_cfg_threshold K st2 h1 cfg m = (rc, st', h')"
    by (auto simp: compress_cfg_def Let_def
        split: sum.splits if_splits option.splits prod.splits)
  from ci have ci': "check_init_lib e ?st0 h m 0 = Inr (rc1, st1, h1)" "0 \<le> rc1"
    by auto
  from check_init_lib_success_loaded[OF ci' m(2)] m(3)
  obtain r1 where r1: "row_at (compress_modules_cmds st1) m = Some r1" "loaded r1" "built_in r1"
    by auto
  have t2: "compress_modules_cmds st2 = compress_modules_cmds st1"
    using vl by (auto simp: val_level_def split: option.splits)
  from res assms(2) have "compress_modules_cmds st' = compress_modules_cmds st2"
    "compress_model h' = m"
    by (auto simp: compress_cfg_threshold_def split: if_splits)
  with r1 t2 show ?thesis by simp
qed

section \<open>The examples run on the model\<close>

lemma cfg_zlib:
  "compress_cfg test_consts (env_at 1) ready_state fresh_handle (zlib_cfg 1024) =
     Inr (0, zlib_state, zlib_user)"
  by (simp add: compress_cfg_def compress_cfg_threshold_def zlib_cfg_def zlib_state_def
      zlib_user_def zlib_charged_def zlib_loaded_def test_defs run_defs)

lemma zlib_scenario:
  "get_model (compress_modules_cmds ready_state) ''zlib'' = Inr 1"
  "row_at (compress_modules_cmds ready_state) 1 = Some (compress_modules_cmds ready_state ! 1)"
  "built_in (compress_modules_cmds ready_state ! 1)"
  "check_init_lib (env_at 1)
     (log_add (Log_debug (Initizializing_compress_module ''zlib'' 6 t)) ready_state)
     fresh_handle 1 0 = Inr (0, zlib_loaded t, zlib_charged)"
  "val_level (zlib_loaded t) zlib_charged 1 6 = Inr (0, call_add (Call_val_level 1) (zlib_loaded t))"
  by (simp_all add: zlib_charged_def zlib_loaded_def test_defs run_defs)

lemma zlib_check:
  "check_init_lib (env_at 2) zlib_state zlib_user 1 0 =
     Inr (0, zlib_state\<lparr>shlib_rwlock := Rd_locked\<rparr>, zlib_user)"
  by (simp add: zlib_state_def zlib_user_def zlib_charged_def zlib_loaded_def test_defs run_defs)

lemma bzip2_scenario:
  "get_model (compress_modules_cmds ready_state) ''bzip2'' = Inr 6"
  "row_at (compress_modules_cmds ready_state) 6 = Some (compress_modules_cmds ready_state ! 6)"
  "built_in (compress_modules_cmds ready_state ! 6)"
  "check_init_lib (env_at 1)
     (log_add (Log_debug (Initizializing_compress_module ''bzip2'' 42 0)) ready_state)
     fresh_handle 6 0 = Inr (0, bzip2_loaded, bzip2_charged)"
  "val_level bzip2_loaded bzip2_charged 6 42 =
     Inr (- 1, call_add (Call_val_level 6) bzip2_loaded)"
  by (simp_all add: bzip2_charged_def bzip2_loaded_def test_defs run_defs)

section \<open>Configuration\<close>

text \<open>
  Claim C3, as amended. When \<open>compress_cfg\<close> gets past ensure-init (line 275) and a later
  step fails, because \<open>val_level\<close> rejects the level or because the threshold is above
  \<open>KNET_MAX_PACKET_SIZE\<close>, it returns -1 with \<^verbatim>\<open>errno = EINVAL\<close> and a log line naming
  the level (or the threshold), drops the lock and does not commit the model and the level
  to the handle. It does not release the charge: the table is the one ensure-init left, so
  when ensure-init took a charge for this handle the row is loaded and its \<open>libref\<close> is
  one above its value before the call.
\<close>

theorem compress_cfg_failure_keeps_charge:
  assumes "get_model (compress_modules_cmds st) (cfg_compress_model cfg) = Inr m" and "0 < m"
    and "row_at (compress_modules_cmds st) m = Some r" and "built_in r"
    and "check_init_lib e
           (log_add (Log_debug (Initizializing_compress_module (cfg_compress_model cfg)
              (cfg_compress_level cfg) (cfg_compress_threshold cfg))) st) h m 0 =
         Inr (rc, st1, h1)"
    and "0 \<le> rc"
    and "val_level st1 h1 m (cfg_compress_level cfg) = Inr (lv, st2)"
  shows "(lv < 0 \<longrightarrow>
            compress_cfg K e st h cfg =
              Inr (- 1, (log_add (Log_err (Level_not_supported (cfg_compress_level cfg)
                           (cfg_compress_model cfg))) st2)
                         \<lparr>shlib_rwlock := Unlocked, errno := EINVAL\<rparr>, h1)) \<and>
         (0 \<le> lv \<and> KNET_MAX_PACKET_SIZE K < cfg_compress_threshold cfg \<longrightarrow>
            compress_cfg K e st h cfg =
              Inr (- 1, (log_add (Log_err (Threshold_too_high (KNET_MAX_PACKET_SIZE K))) st2)
                         \<lparr>shlib_rwlock := Unlocked, errno := EINVAL\<rparr>, h1)) \<and>
         compress_modules_cmds st2 = compress_modules_cmds st1 \<and>
         (\<not> already_init r h m \<longrightarrow>
            compress_modules_cmds st2 =
              (compress_modules_cmds st)[nat m := r\<lparr>loaded := True, libref := libref r + 1\<rparr>])"
proof -
  let ?st0 = "log_add (Log_debug (Initizializing_compress_module (cfg_compress_model cfg)
              (cfg_compress_level cfg) (cfg_compress_threshold cfg))) st"
  have tbl0: "compress_modules_cmds ?st0 = compress_modules_cmds st"
    by (simp add: log_add_def)
  have same: "compress_modules_cmds st2 = compress_modules_cmds st1"
    using assms(7) by (auto simp: val_level_def call_add_def split: option.splits)
  have charge: "\<not> already_init r h m \<Longrightarrow>
      compress_modules_cmds st1 =
        (compress_modules_cmds st)[nat m := r\<lparr>loaded := True, libref := libref r + 1\<rparr>]"
    using check_init_lib_charge[OF assms(5,6), of r] assms(3) tbl0 by simp
  have run: "compress_cfg K e st h cfg =
      (if lv < 0 then
         Inr (- 1, (log_add (Log_err (Level_not_supported (cfg_compress_level cfg)
                           (cfg_compress_model cfg))) st2)
                         \<lparr>shlib_rwlock := Unlocked, errno := EINVAL\<rparr>, h1)
       else Inr (compress_cfg_threshold K st2 h1 cfg m))"
    using assms by (simp add: compress_cfg_def Let_def tbl0)
  show ?thesis
    using run same charge by (simp add: compress_cfg_threshold_def)
qed

theorem compress_cfg_failure_keeps_charge_witness:
  "compress_cfg test_consts (env_at 1) ready_state fresh_handle bzip2_cfg =
     Inr (- 1, (log_add (Log_err (Level_not_supported 42 ''bzip2''))
                 (call_add (Call_val_level 6) bzip2_loaded))
               \<lparr>shlib_rwlock := Unlocked, errno := EINVAL\<rparr>, bzip2_charged) \<and>
   libref (compress_modules_cmds ready_state ! 6) = 0 \<and>
   libref (compress_modules_cmds (call_add (Call_val_level 6) bzip2_loaded) ! 6) = 1 \<and>
   loaded (compress_modules_cmds (call_add (Call_val_level 6) bzip2_loaded) ! 6)"
  using compress_cfg_failure_keeps_charge[of ready_state bzip2_cfg 6
          "compress_modules_cmds ready_state ! 6" "env_at 1" fresh_handle 0 bzip2_loaded
          bzip2_charged "- 1" "call_add (Call_val_level 6) bzip2_loaded" test_consts]
        bzip2_scenario
  by (simp add: bzip2_cfg_def bzip2_loaded_def test_defs)

text \<open>
  The claim C3 as it was stated fails on scenario 6 of the spec: bzip2 configured with a
  level outside the accepted range. The call returns -1 with \<^verbatim>\<open>EINVAL\<close>, and the
  \<open>libref\<close> of the bzip2 row, 0 before the call, is 1 after it.
\<close>

theorem compress_cfg_bad_level_counterexample:
  "libref (compress_modules_cmds ready_state ! 6) = 0 \<and>
   (case compress_cfg test_consts (env_at 1) ready_state fresh_handle bzip2_cfg of
      Inl f \<Rightarrow> False
    | Inr (rc, st', h') \<Rightarrow>
        rc = - 1 \<and> errno st' = EINVAL \<and> libref (compress_modules_cmds st' ! 6) = 1)"
  by (simp add: compress_cfg_def compress_cfg_threshold_def bzip2_cfg_def test_defs run_defs EINVAL_def)

text \<open>
  Claim C7, as amended. In a configuration call for a built-in model other than "none" on
  which ensure-init succeeds: a threshold above \<open>KNET_MAX_PACKET_SIZE\<close> makes the call
  return -1 with \<^verbatim>\<open>errno = EINVAL\<close>; and when \<open>val_level\<close> accepts the level, a threshold
  of zero sets the handle's threshold to \<open>KNET_COMPRESS_THRESHOLD\<close> and logs it, and any
  other threshold up to the maximum is stored as given.
\<close>

theorem compress_cfg_threshold_cases:
  assumes "get_model (compress_modules_cmds st) (cfg_compress_model cfg) = Inr m" and "0 < m"
    and "row_at (compress_modules_cmds st) m = Some r" and "built_in r"
    and "check_init_lib e
           (log_add (Log_debug (Initizializing_compress_module (cfg_compress_model cfg)
              (cfg_compress_level cfg) (cfg_compress_threshold cfg))) st) h m 0 =
         Inr (rc, st1, h1)"
    and "0 \<le> rc"
    and "val_level st1 h1 m (cfg_compress_level cfg) = Inr (lv, st2)"
  shows "(KNET_MAX_PACKET_SIZE K < cfg_compress_threshold cfg \<longrightarrow>
            (\<exists>st'. compress_cfg K e st h cfg = Inr (- 1, st', h1) \<and> errno st' = EINVAL)) \<and>
         (0 \<le> lv \<and> cfg_compress_threshold cfg = 0 \<longrightarrow>
            compress_cfg K e st h cfg =
              Inr (0, (log_add (Log_debug (Resetting_threshold (KNET_COMPRESS_THRESHOLD K))) st2)
                       \<lparr>shlib_rwlock := Unlocked, errno := 0\<rparr>,
                   h1\<lparr>compress_threshold := KNET_COMPRESS_THRESHOLD K, compress_model := m,
                      compress_level := cfg_compress_level cfg\<rparr>)) \<and>
         (0 \<le> lv \<and> 0 < cfg_compress_threshold cfg \<and>
          cfg_compress_threshold cfg \<le> KNET_MAX_PACKET_SIZE K \<longrightarrow>
            compress_cfg K e st h cfg =
              Inr (0, st2\<lparr>shlib_rwlock := Unlocked, errno := 0\<rparr>,
                   h1\<lparr>compress_threshold := cfg_compress_threshold cfg, compress_model := m,
                      compress_level := cfg_compress_level cfg\<rparr>))"
proof -
  have tbl0: "compress_modules_cmds (log_add (Log_debug (Initizializing_compress_module
      (cfg_compress_model cfg) (cfg_compress_level cfg) (cfg_compress_threshold cfg))) st) =
      compress_modules_cmds st"
    by simp
  have run: "compress_cfg K e st h cfg =
      (if lv < 0 then
         Inr (- 1, (log_add (Log_err (Level_not_supported (cfg_compress_level cfg)
                           (cfg_compress_model cfg))) st2)
                         \<lparr>shlib_rwlock := Unlocked, errno := EINVAL\<rparr>, h1)
       else Inr (compress_cfg_threshold K st2 h1 cfg m))"
    using assms by (simp add: compress_cfg_def Let_def tbl0)
  show ?thesis
    unfolding run by (simp add: compress_cfg_threshold_def)
qed

theorem compress_cfg_threshold_cases_witness:
  "(\<exists>st'. compress_cfg test_consts (env_at 1) ready_state fresh_handle (zlib_cfg 70000) =
            Inr (- 1, st', zlib_charged) \<and> errno st' = EINVAL) \<and>
   compress_cfg test_consts (env_at 1) ready_state fresh_handle (zlib_cfg 0) =
     Inr (0, (log_add (Log_debug (Resetting_threshold 100))
               (call_add (Call_val_level 1) (zlib_loaded 0)))
             \<lparr>shlib_rwlock := Unlocked, errno := 0\<rparr>,
          zlib_charged\<lparr>compress_threshold := 100, compress_model := 1, compress_level := 6\<rparr>) \<and>
   compress_cfg test_consts (env_at 1) ready_state fresh_handle (zlib_cfg 1024) =
     Inr (0, (call_add (Call_val_level 1) (zlib_loaded 1024))
             \<lparr>shlib_rwlock := Unlocked, errno := 0\<rparr>,
          zlib_charged\<lparr>compress_threshold := 1024, compress_model := 1, compress_level := 6\<rparr>)"
  using compress_cfg_threshold_cases[of ready_state "zlib_cfg 70000" 1
          "compress_modules_cmds ready_state ! 1" "env_at 1" fresh_handle 0 "zlib_loaded 70000"
          zlib_charged 0 "call_add (Call_val_level 1) (zlib_loaded 70000)" test_consts]
        compress_cfg_threshold_cases[of ready_state "zlib_cfg 0" 1
          "compress_modules_cmds ready_state ! 1" "env_at 1" fresh_handle 0 "zlib_loaded 0"
          zlib_charged 0 "call_add (Call_val_level 1) (zlib_loaded 0)" test_consts]
        compress_cfg_threshold_cases[of ready_state "zlib_cfg 1024" 1
          "compress_modules_cmds ready_state ! 1" "env_at 1" fresh_handle 0 "zlib_loaded 1024"
          zlib_charged 0 "call_add (Call_val_level 1) (zlib_loaded 1024)" test_consts]
        zlib_scenario
  by (simp add: zlib_cfg_def test_consts_def)

text \<open>
  The claim C7 as it was stated, for every configuration call with a valid model other
  than "none", fails when a step before the threshold fails. With a threshold of zero,
  bzip2 at the rejected level 42 and lzma, which fails to load, both return -1 and leave
  the handle's threshold at 0: the default is neither stored nor logged.
\<close>

theorem compress_cfg_threshold_counterexample:
  "cfg_compress_threshold bzip2_cfg = 0 \<and>
   (case compress_cfg test_consts (env_at 1) ready_state fresh_handle bzip2_cfg of
      Inl f \<Rightarrow> False
    | Inr (rc, st', h') \<Rightarrow>
        rc = - 1 \<and> compress_threshold h' = 0 \<and>
        compress_threshold h' \<noteq> KNET_COMPRESS_THRESHOLD test_consts \<and>
        Log_debug (Resetting_threshold (KNET_COMPRESS_THRESHOLD test_consts)) \<notin> set (logged st')) \<and>
   cfg_compress_threshold lzma_cfg = 0 \<and>
   (case compress_cfg test_consts (env_at 1) ready_state fresh_handle lzma_cfg of
      Inl f \<Rightarrow> False
    | Inr (rc, st', h') \<Rightarrow>
        rc = - 1 \<and> compress_threshold h' = 0 \<and>
        compress_threshold h' \<noteq> KNET_COMPRESS_THRESHOLD test_consts \<and>
        Log_debug (Resetting_threshold (KNET_COMPRESS_THRESHOLD test_consts)) \<notin> set (logged st'))"
  by (simp add: compress_cfg_def compress_cfg_threshold_def bzip2_cfg_def lzma_cfg_def
      test_defs run_defs)

section \<open>The send path\<close>

text \<open>
  Claim C9. \<open>compress\<close> does not validate the model stored in the handle. For a handle
  whose \<open>compress_model\<close> is 0 ("none") or the id of a placeholder row, the row is not
  loaded and its \<open>load_lib\<close> slot is NULL: with both locks granted, ensure-init runs into
  the call through that NULL pointer at line 212. The call is avoided exactly when the row
  is loaded or has a \<open>load_lib\<close>; a successful \<open>compress_cfg\<close> with a model other than
  "none" leaves such a row in the handle (\<open>compress_cfg_success_loaded\<close>).
\<close>

theorem compress_placeholder_null_call:
  assumes "rdlock_ret e = 0" and "wrlock_ret e = 0"
    and "row_at (compress_modules_cmds st) (compress_model h) = Some r"
  shows "(\<not> loaded r \<and> load_lib r = None \<longrightarrow>
            compress e st h buf_in buf_in_len buf_out buf_out_len =
              Inl (NULL_function_call ''load_lib'' (compress_model h))) \<and>
         (loaded r \<or> load_lib r \<noteq> None \<longrightarrow>
            compress e st h buf_in buf_in_len buf_out buf_out_len \<noteq>
              Inl (NULL_function_call ''load_lib'' (compress_model h)))"
proof -
  have null_call: "check_init_lib e st h (compress_model h) 0 =
      Inl (NULL_function_call ''load_lib'' (compress_model h))"
    if "\<not> loaded r" "load_lib r = None"
    using assms that
    by (simp add: check_init_lib_def check_init_lib_load_def already_init_def after_is_init_def)
  have no_null_call: "check_init_lib e st h (compress_model h) 0 \<noteq>
      Inl (NULL_function_call ''load_lib'' x)"
    if "loaded r \<or> load_lib r \<noteq> None" for x
    using assms that
    by (auto simp: check_init_lib_def check_init_lib_load_def check_init_lib_init_def Let_def
        row_at_def split: if_splits option.splits prod.splits)
  show ?thesis
    using null_call no_null_call
    by (auto simp: compress_def split: sum.splits option.splits prod.splits if_splits)
qed

theorem compress_placeholder_null_call_witness:
  "compress (env_at 1) ready_state fresh_handle [1, 2, 3] 3 [] 0 =
     Inl (NULL_function_call ''load_lib'' 0) \<and>
   compress (env_at 1) ready_state (fresh_handle\<lparr>compress_model := 2\<rparr>) [1, 2, 3] 3 [] 0 =
     Inl (NULL_function_call ''load_lib'' 2) \<and>
   compress (env_at 2) zlib_state zlib_user [1, 2, 3] 3 [] 0 \<noteq>
     Inl (NULL_function_call ''load_lib'' 1)"
  using compress_placeholder_null_call[of "env_at 1" ready_state fresh_handle
          "empty_module (Some ''none'') 0" "[1, 2, 3]" 3 "[]" 0]
        compress_placeholder_null_call[of "env_at 1" ready_state
          "fresh_handle\<lparr>compress_model := 2\<rparr>" "empty_module (Some ''lz4'') 2"
          "[1, 2, 3]" 3 "[]" 0]
        compress_placeholder_null_call[of "env_at 2" zlib_state zlib_user
          "compress_modules_cmds zlib_state ! 1" "[1, 2, 3]" 3 "[]" 0]
  by (simp add: zlib_state_def zlib_user_def zlib_charged_def zlib_loaded_def test_defs
      row_at_def)

text \<open>
  Claim C8. \<open>compress\<close> never compares the input length with the handle's
  \<open>compress_threshold\<close>. Once ensure-init has succeeded it calls the \<open>compress\<close>
  operation of the configured row with the buffer and the length it was given, whatever
  the length; and whether that operation is called does not depend on the buffers or on
  the lengths at all. In the example the handle's threshold is 1024 and the input has 3
  bytes.
\<close>

theorem compress_calls_backend:
  "(check_init_lib e st h (compress_model h) 0 = Inr (rc, st1, h1) \<and> 0 \<le> rc \<and>
    row_at (compress_modules_cmds st1) (compress_model h1) = Some r \<and> compress_fn r = Some f \<longrightarrow>
      compress e st h buf_in buf_in_len buf_out buf_out_len =
        (case f h1 buf_in buf_in_len buf_out buf_out_len of
           (err, en, out, out_len) \<Rightarrow>
             Inr (err, (call_add (Call_compress (nat (compress_model h1))) st1)
                        \<lparr>shlib_rwlock := Unlocked, errno := en\<rparr>, h1, out, out_len))) \<and>
   compress_called st (compress e st h buf_in buf_in_len buf_out buf_out_len) =
     compress_called st (compress e st h buf_in' buf_in_len' buf_out' buf_out_len')"
proof (intro conjI impI)
  assume "check_init_lib e st h (compress_model h) 0 = Inr (rc, st1, h1) \<and> 0 \<le> rc \<and>
    row_at (compress_modules_cmds st1) (compress_model h1) = Some r \<and> compress_fn r = Some f"
  then show "compress e st h buf_in buf_in_len buf_out buf_out_len =
        (case f h1 buf_in buf_in_len buf_out buf_out_len of
           (err, en, out, out_len) \<Rightarrow>
             Inr (err, (call_add (Call_compress (nat (compress_model h1))) st1)
                        \<lparr>shlib_rwlock := Unlocked, errno := en\<rparr>, h1, out, out_len))"
    by (simp add: compress_def split: prod.splits)
next
  show "compress_called st (compress e st h buf_in buf_in_len buf_out buf_out_len) =
     compress_called st (compress e st h buf_in' buf_in_len' buf_out' buf_out_len')"
  proof (cases "check_init_lib e st h (compress_model h) 0")
    case (Inl f)
    then show ?thesis by (simp add: compress_def compress_called_def)
  next
    case (Inr x)
    then obtain rc' st' h' where x: "check_init_lib e st h (compress_model h) 0 = Inr (rc', st', h')"
      by (cases x) auto
    show ?thesis
    proof (cases "row_at (compress_modules_cmds st') (compress_model h')")
      case None
      with x show ?thesis by (simp add: compress_def compress_called_def)
    next
      case (Some r')
      show ?thesis
      proof (cases "rc' < 0")
        case True
        with x Some show ?thesis
          by (simp add: compress_def compress_called_def)
      next
        case False
        with x Some show ?thesis
          by (cases "compress_fn r'")
             (auto simp: compress_def compress_called_def split: prod.splits)
      qed
    qed
  qed
qed

theorem compress_calls_backend_witness:
  "compress_threshold zlib_user = 1024 \<and>
   compress (env_at 2) zlib_state zlib_user [1, 2, 3] 3 [] 0 =
     Inr (0, (call_add (Call_compress 1) zlib_state)\<lparr>shlib_rwlock := Unlocked, errno := 0\<rparr>,
          zlib_user, [1, 2, 3], 3) \<and>
   compress_called zlib_state (compress (env_at 2) zlib_state zlib_user [1, 2, 3] 3 [] 0)"
  using compress_calls_backend[of "env_at 2" zlib_state zlib_user 0
          "zlib_state\<lparr>shlib_rwlock := Rd_locked\<rparr>" zlib_user
          "compress_modules_cmds zlib_state ! 1" stub_transform "[1, 2, 3]" 3 "[]" 0]
        zlib_check
  by (simp add: compress_called_def zlib_state_def zlib_user_def zlib_charged_def zlib_loaded_def
      test_defs row_at_def call_add_def)

section \<open>The rate limit of ensure-init\<close>

text \<open>
  Claim C1, as amended. \<open>check_init_lib\<close> applies the rate limit after the fast path of
  lines 162-172, not right after taking the read lock. With the read lock granted:
  \<^item> a row that is already loaded and initialised for the handle gets 0 on the fast path,
    whatever \<open>rate_limit\<close> and the time elapsed since the last failure;
  \<^item> otherwise, with \<open>rate_limit\<close> set, \<open>last_load_failure\<close> non-zero and less than 10
    seconds elapsed, it returns -1 with \<^verbatim>\<open>errno = EAGAIN\<close> and the lock released, and makes
    no call of \<open>load_lib\<close> (the calls are those of the fast-path test only);
  \<^item> with no rate limit, no recorded failure, or 10 seconds elapsed, and with the write
    lock granted and the row not loaded, \<open>load_lib\<close> is called;
  \<^item> and when that call fails, on either path, \<open>last_load_failure\<close> becomes the current
    reading of the monotonic clock and -1 is returned.
\<close>

theorem check_init_lib_rate_limit:
  assumes "rdlock_ret e = 0" and "row_at (compress_modules_cmds st) m = Some r"
  shows "(already_init r h m \<longrightarrow>
            check_init_lib e st h m rl =
              Inr (0, after_is_init r m (st\<lparr>shlib_rwlock := Rd_locked\<rparr>), h)) \<and>
         (\<not> already_init r h m \<and> rl \<noteq> 0 \<and> timespec_is_set (last_load_failure st) \<and>
          timespec_diff (last_load_failure st) (clock_at_check e) < 10000000000 \<longrightarrow>
            check_init_lib e st h m rl =
              Inr (- 1, (after_is_init r m (st\<lparr>shlib_rwlock := Rd_locked\<rparr>))
                         \<lparr>shlib_rwlock := Unlocked, errno := EAGAIN\<rparr>, h)) \<and>
         ((rl = 0 \<or> \<not> timespec_is_set (last_load_failure st) \<or>
           10000000000 \<le> timespec_diff (last_load_failure st) (clock_at_check e)) \<and>
          wrlock_ret e = 0 \<and> \<not> loaded r \<and> load_lib r = Some f \<longrightarrow>
            (\<exists>rc st' h' cs. check_init_lib e st h m rl = Inr (rc, st', h') \<and>
               calls st' = calls st @ Call_load_lib (nat m) # cs) \<and>
            (fst (f h) < 0 \<longrightarrow>
               check_init_lib e st h m rl =
                 Inr (- 1, (call_add (Call_load_lib (nat m)) (st\<lparr>shlib_rwlock := Rd_locked\<rparr>))
                            \<lparr>last_load_failure := clock_at_failure e, shlib_rwlock := Unlocked,
                             errno := snd (f h)\<rparr>, h)))"
proof -
  have fast: "already_init r h m \<Longrightarrow>
      check_init_lib e st h m rl =
        Inr (0, after_is_init r m (st\<lparr>shlib_rwlock := Rd_locked\<rparr>), h)"
    using assms by (simp add: check_init_lib_def Let_def)
  have limited: "\<not> already_init r h m \<Longrightarrow> rl \<noteq> 0 \<Longrightarrow>
      timespec_is_set (last_load_failure st) \<Longrightarrow>
      timespec_diff (last_load_failure st) (clock_at_check e) < 10000000000 \<Longrightarrow>
      check_init_lib e st h m rl =
        Inr (- 1, (after_is_init r m (st\<lparr>shlib_rwlock := Rd_locked\<rparr>))
                   \<lparr>shlib_rwlock := Unlocked, errno := EAGAIN\<rparr>, h)"
    using assms by (simp add: check_init_lib_def Let_def)
  have admitted: "check_init_lib e st h m rl =
        check_init_lib_load e (after_is_init r m (st\<lparr>shlib_rwlock := Rd_locked\<rparr>)) h m"
    if "rl = 0 \<or> \<not> timespec_is_set (last_load_failure st) \<or>
        10000000000 \<le> timespec_diff (last_load_failure st) (clock_at_check e)"
      and "\<not> loaded r"
    using assms that by (auto simp: check_init_lib_def already_init_def Let_def)
  have fails: "check_init_lib_load e (after_is_init r m (st\<lparr>shlib_rwlock := Rd_locked\<rparr>)) h m =
        Inr (- 1, (call_add (Call_load_lib (nat m)) (st\<lparr>shlib_rwlock := Rd_locked\<rparr>))
                   \<lparr>last_load_failure := clock_at_failure e, shlib_rwlock := Unlocked,
                    errno := snd (f h)\<rparr>, h)"
    if "wrlock_ret e = 0" "\<not> loaded r" "load_lib r = Some f" "fst (f h) < 0"
    using assms that by (simp add: check_init_lib_load_def after_is_init_def)
  have attempted: "\<exists>rc st' h' cs.
        check_init_lib_load e (after_is_init r m (st\<lparr>shlib_rwlock := Rd_locked\<rparr>)) h m =
          Inr (rc, st', h') \<and> calls st' = calls st @ Call_load_lib (nat m) # cs"
    if "wrlock_ret e = 0" "\<not> loaded r" "load_lib r = Some f"
    using assms that
    by (auto simp: check_init_lib_load_def check_init_lib_init_def after_is_init_def
        row_at_def Let_def split: option.splits prod.splits)
  show ?thesis
    using fast limited admitted fails attempted by auto
qed

lemma lzma_row:
  "row_at (compress_modules_cmds ready_state) 5 = Some (compress_modules_cmds ready_state ! 5)"
  "row_at (compress_modules_cmds lzma_failed) 5 = Some (compress_modules_cmds ready_state ! 5)"
  "load_lib (compress_modules_cmds ready_state ! 5) = Some (c_load_lib (stub_codec False))"
  "\<not> loaded (compress_modules_cmds ready_state ! 5)"
  "\<not> already_init (compress_modules_cmds ready_state ! 5) fresh_handle 5"
  by (simp_all add: lzma_failed_def already_init_def test_defs row_at_def)

lemma zlib_rows:
  "row_at (compress_modules_cmds throttled_state) 1 = Some (compress_modules_cmds zlib_state ! 1)"
  "already_init (compress_modules_cmds zlib_state ! 1) zlib_user 1"
  "is_init (compress_modules_cmds zlib_state ! 1) = None"
  by (simp_all add: throttled_state_def zlib_state_def zlib_user_def zlib_charged_def
      zlib_loaded_def already_init_def test_defs row_at_def)

theorem check_init_lib_rate_limit_witness:
  "check_init_lib (env_at 5) ready_state fresh_handle 5 1 = Inr (- 1, lzma_failed, fresh_handle) \<and>
   check_init_lib (env_at 6) lzma_failed fresh_handle 5 1 =
     Inr (- 1, lzma_failed\<lparr>errno := EAGAIN\<rparr>, fresh_handle) \<and>
   check_init_lib (env_at 16) lzma_failed fresh_handle 5 1 =
     Inr (- 1, lzma_failed\<lparr>last_load_failure := \<lparr>tv_sec = 16, tv_nsec = 0\<rparr>,
                 calls := [Call_load_lib 5, Call_load_lib 5]\<rparr>, fresh_handle) \<and>
   check_init_lib (env_at 6) throttled_state zlib_user 1 1 =
     Inr (0, throttled_state\<lparr>shlib_rwlock := Rd_locked\<rparr>, zlib_user)"
  using check_init_lib_rate_limit[of "env_at 5" ready_state 5
          "compress_modules_cmds ready_state ! 5" fresh_handle 1 "c_load_lib (stub_codec False)"]
        check_init_lib_rate_limit[of "env_at 6" lzma_failed 5
          "compress_modules_cmds ready_state ! 5" fresh_handle 1 "c_load_lib (stub_codec False)"]
        check_init_lib_rate_limit[of "env_at 16" lzma_failed 5
          "compress_modules_cmds ready_state ! 5" fresh_handle 1 "c_load_lib (stub_codec False)"]
        check_init_lib_rate_limit[of "env_at 6" throttled_state 1
          "compress_modules_cmds zlib_state ! 1" zlib_user 1 "c_load_lib (stub_codec False)"]
        lzma_row zlib_rows
  by (simp add: lzma_failed_def after_is_init_def call_add_def timespec_is_set_def
      timespec_diff_def env_at_def stub_codec_def ready_state_def initial_state_def)

lemma throttled_reached:
  "decompress (env_at 5) zlib_state zlib_user 5 [1, 2, 3] 3 [] 0 =
     Inr (- 1, throttled_state, zlib_user, [], 0)"
  by (simp add: decompress_def throttled_state_def zlib_state_def zlib_user_def zlib_charged_def
      zlib_loaded_def test_defs run_defs)

text \<open>
  The claim C1 as it was stated fails where the fast path applies. In \<open>throttled_state\<close>
  a load failure was recorded at second 5 and zlib is loaded and charged to \<open>zlib_user\<close>;
  at second 6 the decompress path (\<open>rate_limit = 1\<close>) gets 0 from \<open>check_init_lib\<close>
  for zlib, not \<^verbatim>\<open>EAGAIN\<close>, and \<open>decompress\<close> returns what the back-end returns. The state
  is the one a failed decompress of an lzma packet leaves (\<open>throttled_reached\<close>).
\<close>

theorem rate_limit_fast_path_counterexample:
  "timespec_is_set (last_load_failure throttled_state) \<and>
   timespec_diff (last_load_failure throttled_state) (clock_at_check (env_at 6)) < 10000000000 \<and>
   check_init_lib (env_at 6) throttled_state zlib_user 1 1 =
     Inr (0, throttled_state\<lparr>shlib_rwlock := Rd_locked\<rparr>, zlib_user) \<and>
   decompress (env_at 6) throttled_state zlib_user 1 [1, 2, 3] 3 [] 0 =
     Inr (0, (call_add (Call_decompress 1) throttled_state)\<lparr>errno := 0\<rparr>, zlib_user, [1, 2, 3], 3)"
  by (simp add: decompress_def throttled_state_def zlib_state_def zlib_user_def zlib_charged_def
      zlib_loaded_def test_defs run_defs)

section \<open>Initialisation\<close>

text \<open>
  \<open>compress_init\<close> compares \<open>max_model\<close>, the number of rows before the sentinel minus
  one, with the cap: it reports an error exactly when the number of rows exceeds the cap
  by two or more, and on success \<open>max_model\<close> is at most the cap.
\<close>

lemma get_max_model_loop_count:
  "length (named_rows tbl) < length tbl \<Longrightarrow>
   get_max_model_loop tbl idx = Inr (idx + int (length (named_rows tbl)) - 1)"
  by (induction tbl arbitrary: idx) (auto simp: named_rows_def split: option.splits)

lemma compress_init_error_iff:
  assumes "length (named_rows (compress_modules_cmds st)) < length (compress_modules_cmds st)"
  shows "(\<exists>st'. compress_init K st = Inr (- 1, st')) \<longleftrightarrow>
         KNET_MAX_COMPRESS_METHODS K + 1 < int (length (named_rows (compress_modules_cmds st)))"
  using get_max_model_loop_count[OF assms, of 0]
  by (auto simp: compress_init_def get_max_model_def)

lemma compress_init_max_model:
  "compress_init K st = Inr (0, st') \<Longrightarrow> max_model st' \<le> KNET_MAX_COMPRESS_METHODS K"
  by (auto simp: compress_init_def split: sum.splits if_splits)

text \<open>
  Claim C6 (a defect of the code). The claim asks for an error whenever the table has more
  rows before the sentinel than \<open>KNET_MAX_COMPRESS_METHODS\<close>. With the table of the
  repository (7 rows) and a cap of 6, \<open>compress_init\<close> returns 0: the test of line 238
  is off by one. \<open>compress_fini\<close> treats the cap as an exclusive bound on the index
  (line 333), so the row at index 6 would be charged and never released.
\<close>

theorem compress_init_cap_exceeded:
  "length (named_rows (compress_modules_cmds (initial_state test_build))) = 7 \<and>
   compress_init (test_consts\<lparr>KNET_MAX_COMPRESS_METHODS := 6\<rparr>) (initial_state test_build) =
     Inr (0, ready_state)"
  by (simp add: named_rows_def compress_init_def get_max_model_def test_defs)

section \<open>Finalisation\<close>

text \<open>
  Claim C4 (a defect of the code). \<open>compress_fini\<close> decrements \<open>libref\<close> on every
  built-in loaded row, whether the handle charged it or not. In \<open>zlib_state\<close> the zlib
  row has one charge, taken by \<open>zlib_user\<close>. Finalising \<open>fresh_handle\<close>, which holds
  no charge (its slot for zlib is NULL), brings that \<open>libref\<close> to 0 and unloads the
  library that \<open>zlib_user\<close> still uses.
\<close>

theorem compress_fini_foreign_charge:
  "compress_int_data fresh_handle 1 = NULL \<and>
   compress_int_data zlib_user 1 = Fake_ref \<and>
   libref (compress_modules_cmds zlib_state ! 1) = 1 \<and>
   compress_fini test_consts (env_at 3) zlib_state fresh_handle = Inr (zlib_unloaded, fresh_handle) \<and>
   libref (compress_modules_cmds zlib_unloaded ! 1) = 0 \<and>
   \<not> loaded (compress_modules_cmds zlib_unloaded ! 1)"
  by (simp add: compress_fini_def fini_loop.simps fini_row_def Let_def zlib_unloaded_def
      zlib_state_def zlib_user_def zlib_charged_def zlib_loaded_def test_defs log_add_def
      call_add_def fun_eq_iff)

lemma fini_zlib:
  "compress_fini test_consts (env_at 3) zlib_state zlib_user =
     Inr (zlib_unloaded, zlib_user\<lparr>compress_int_data := (\<lambda>i. NULL)\<rparr>)"
  by (simp add: compress_fini_def fini_loop.simps fini_row_def Let_def zlib_unloaded_def
      zlib_state_def zlib_user_def zlib_charged_def zlib_loaded_def test_defs log_add_def
      call_add_def fun_eq_iff)

section \<open>The invariant on \<open>libref\<close> and \<open>loaded\<close>\<close>

lemma libref_inv_update:
  "libref_inv tbl \<Longrightarrow> (0 < libref r' \<longrightarrow> loaded r') \<Longrightarrow> libref_inv (tbl[i := r'])"
  unfolding libref_inv_def list_all_iff
  by (metis insertE set_update_subset_insert subsetD)

lemma libref_inv_nth:
  "libref_inv tbl \<Longrightarrow> i < length tbl \<Longrightarrow> 0 < libref (tbl ! i) \<Longrightarrow> loaded (tbl ! i)"
  unfolding libref_inv_def list_all_length by blast

lemma check_init_lib_init_inv:
  assumes "check_init_lib_init st h m = Inr (rc, st', h')"
    and "libref_inv (compress_modules_cmds st)"
    and "row_at (compress_modules_cmds st) m = Some r" and "loaded r"
  shows "libref_inv (compress_modules_cmds st')"
  using assms
  by (auto simp: check_init_lib_init_def Let_def intro!: libref_inv_update
      split: option.splits prod.splits if_splits)

lemma check_init_lib_load_inv:
  assumes "check_init_lib_load e st h m = Inr (rc, st', h')"
    and "libref_inv (compress_modules_cmds st)"
  shows "libref_inv (compress_modules_cmds st')"
proof (cases "row_at (compress_modules_cmds st) m")
  case None
  with assms show ?thesis
    by (auto simp: check_init_lib_load_def split: if_splits)
next
  case (Some r)
  show ?thesis
  proof (cases "wrlock_ret e \<noteq> 0 \<or> (\<not> loaded r \<and> (\<exists>f. load_lib r = Some f \<and> fst (f h) < 0))")
    case True
    with assms Some show ?thesis
      by (auto simp: check_init_lib_load_def split: if_splits option.splits)
  next
    case False
    show ?thesis
    proof (cases "loaded r")
      case True
      with assms Some False
      have "check_init_lib_init (st\<lparr>shlib_rwlock := Wr_locked\<rparr>) h m = Inr (rc, st', h')"
        by (simp add: check_init_lib_load_def)
      from check_init_lib_init_inv[OF this, of r] assms(2) Some True show ?thesis by simp
    next
      case nl: False
      with assms Some False obtain f where f: "load_lib r = Some f"
        and run: "check_init_lib_init
                ((call_add (Call_load_lib (nat m)) st)
                   \<lparr>compress_modules_cmds :=
                      (compress_modules_cmds st)[nat m := r\<lparr>loaded := True\<rparr>],
                    shlib_rwlock := Wr_locked, errno := snd (f h)\<rparr>) h m = Inr (rc, st', h')"
        by (auto simp: check_init_lib_load_def split: if_splits option.splits)
      from check_init_lib_init_inv[OF run, of "r\<lparr>loaded := True\<rparr>"]
        libref_inv_update[OF assms(2), of "r\<lparr>loaded := True\<rparr>" "nat m"]
        row_at_update[OF Some]
      show ?thesis by simp
    qed
  qed
qed

lemma check_init_lib_inv:
  assumes "check_init_lib e st h m rl = Inr (rc, st', h')"
    and "libref_inv (compress_modules_cmds st)"
  shows "libref_inv (compress_modules_cmds st')"
  using assms
  by (auto simp: check_init_lib_def Let_def split: if_splits option.splits
      dest!: check_init_lib_load_inv)

lemma compress_init_inv:
  "compress_init K st = Inr (rc, st') \<Longrightarrow> libref_inv (compress_modules_cmds st) \<Longrightarrow>
   libref_inv (compress_modules_cmds st')"
  by (auto simp: compress_init_def split: sum.splits if_splits)

lemma val_level_table:
  "val_level st h m l = Inr (lv, st') \<Longrightarrow> compress_modules_cmds st' = compress_modules_cmds st"
  by (auto simp: val_level_def split: option.splits)

lemma compress_cfg_inv:
  assumes "compress_cfg K e st h cfg = Inr (rc, st', h')"
    and "libref_inv (compress_modules_cmds st)"
  shows "libref_inv (compress_modules_cmds st')"
  using assms
  by (auto simp: compress_cfg_def compress_cfg_threshold_def Let_def
      split: sum.splits if_splits option.splits prod.splits
      dest!: check_init_lib_inv val_level_table)

lemma compress_inv:
  assumes "compress e st h bi bl bo ol = Inr (rc, st', h', out, out_len)"
    and "libref_inv (compress_modules_cmds st)"
  shows "libref_inv (compress_modules_cmds st')"
  using assms
  by (auto simp: compress_def split: sum.splits if_splits option.splits prod.splits
      dest!: check_init_lib_inv)

lemma decompress_inv:
  assumes "decompress e st h m bi bl bo ol = Inr (rc, st', h', out, out_len)"
    and "libref_inv (compress_modules_cmds st)"
  shows "libref_inv (compress_modules_cmds st')"
  using assms
  by (auto simp: decompress_def split: sum.splits if_splits option.splits prod.splits
      dest!: check_init_lib_inv)

lemma fini_row_inv:
  assumes "fini_row st h idx = Inr (st', h')" and "libref_inv (compress_modules_cmds st)"
    and "loaded (compress_modules_cmds st ! idx)"
  shows "libref_inv (compress_modules_cmds st')"
  using assms
  by (auto simp: fini_row_def Let_def intro!: libref_inv_update
      split: if_splits option.splits)

lemma fini_loop_inv:
  "fini_loop K idx st h = Inr (st', h') \<Longrightarrow> libref_inv (compress_modules_cmds st) \<Longrightarrow>
   libref_inv (compress_modules_cmds st')"
proof (induction K idx st h rule: fini_loop.induct)
  case (1 K idx st h)
  from "1.prems" "1.IH" show ?case
    by (subst (asm) fini_loop.simps)
       (auto split: if_splits option.splits sum.splits dest: fini_row_inv)
qed

lemma compress_fini_inv:
  "compress_fini K e st h = Inr (st', h') \<Longrightarrow> libref_inv (compress_modules_cmds st) \<Longrightarrow>
   libref_inv (compress_modules_cmds st')"
  by (auto simp: compress_fini_def split: if_splits sum.splits dest!: fini_loop_inv)

lemma check_init_lib_init_rows:
  assumes "check_init_lib_init st h m = Inr (rc, st', h')"
    and "row_at (compress_modules_cmds st) m = Some r"
  shows "(rc < 0 \<and> compress_modules_cmds st' = compress_modules_cmds st) \<or>
         (rc = 0 \<and> (\<forall>g. init r = Some g \<longrightarrow> 0 \<le> fst (g h m)) \<and>
          compress_modules_cmds st' =
            (compress_modules_cmds st)[nat m := r\<lparr>libref := libref r + 1\<rparr>])"
  using assms
  by (auto simp: check_init_lib_init_def Let_def split: option.splits prod.splits if_splits)

lemma check_init_lib_load_rows:
  assumes "check_init_lib_load e st h m = Inr (rc, st', h')"
    and "row_at (compress_modules_cmds st) m = Some r"
  shows "(rc < 0 \<and> compress_modules_cmds st' = compress_modules_cmds st) \<or>
         (rc < 0 \<and> \<not> loaded r \<and> (\<exists>f. load_lib r = Some f \<and> 0 \<le> fst (f h)) \<and>
          compress_modules_cmds st' = (compress_modules_cmds st)[nat m := r\<lparr>loaded := True\<rparr>]) \<or>
         (rc = 0 \<and> (loaded r \<or> (\<exists>f. load_lib r = Some f \<and> 0 \<le> fst (f h))) \<and>
          (\<forall>g. init r = Some g \<longrightarrow> 0 \<le> fst (g h m)) \<and>
          compress_modules_cmds st' =
            (compress_modules_cmds st)[nat m := r\<lparr>loaded := True, libref := libref r + 1\<rparr>])"
proof (cases "wrlock_ret e \<noteq> 0 \<or> (\<not> loaded r \<and> (\<exists>f. load_lib r = Some f \<and> fst (f h) < 0))")
  case True
  with assms show ?thesis
    by (auto simp: check_init_lib_load_def split: if_splits option.splits)
next
  case False
  show ?thesis
  proof (cases "loaded r")
    case True
    then have r: "r\<lparr>loaded := True\<rparr> = r" by simp
    from assms False True
    have "check_init_lib_init (st\<lparr>shlib_rwlock := Wr_locked\<rparr>) h m = Inr (rc, st', h')"
      by (simp add: check_init_lib_load_def)
    from check_init_lib_init_rows[OF this, of r] assms(2) True show ?thesis
      by (auto simp: r)
  next
    case nl: False
    with assms False obtain f where f: "load_lib r = Some f" "0 \<le> fst (f h)"
      and run: "check_init_lib_init
              ((call_add (Call_load_lib (nat m)) st)
                 \<lparr>compress_modules_cmds :=
                    (compress_modules_cmds st)[nat m := r\<lparr>loaded := True\<rparr>],
                  shlib_rwlock := Wr_locked, errno := snd (f h)\<rparr>) h m = Inr (rc, st', h')"
      by (auto simp: check_init_lib_load_def split: if_splits option.splits)
    from check_init_lib_init_rows[OF run, of "r\<lparr>loaded := True\<rparr>"] row_at_update[OF assms(2)]
      f nl
    show ?thesis by auto
  qed
qed

lemma check_init_lib_rows:
  assumes "check_init_lib e st h m rl = Inr (rc, st', h')"
  shows "compress_modules_cmds st' = compress_modules_cmds st \<or>
         (\<exists>r. row_at (compress_modules_cmds st) m = Some r \<and>
           rc < 0 \<and> \<not> loaded r \<and> (\<exists>f. load_lib r = Some f \<and> 0 \<le> fst (f h)) \<and>
           compress_modules_cmds st' = (compress_modules_cmds st)[nat m := r\<lparr>loaded := True\<rparr>]) \<or>
         (\<exists>r. row_at (compress_modules_cmds st) m = Some r \<and>
           rc = 0 \<and> (loaded r \<or> (\<exists>f. load_lib r = Some f \<and> 0 \<le> fst (f h))) \<and>
           (\<forall>g. init r = Some g \<longrightarrow> 0 \<le> fst (g h m)) \<and>
           compress_modules_cmds st' =
             (compress_modules_cmds st)[nat m := r\<lparr>loaded := True, libref := libref r + 1\<rparr>])"
proof (cases "row_at (compress_modules_cmds st) m")
  case None
  with assms show ?thesis
    by (auto simp: check_init_lib_def split: if_splits)
next
  case (Some r)
  show ?thesis
  proof (cases "check_init_lib e st h m rl =
      check_init_lib_load e (after_is_init r m (st\<lparr>shlib_rwlock := Rd_locked\<rparr>)) h m")
    case True
    with assms check_init_lib_load_rows[of e "after_is_init r m (st\<lparr>shlib_rwlock := Rd_locked\<rparr>)"
        h m rc st' h' r] Some
    show ?thesis by auto
  next
    case False
    with assms Some show ?thesis
      by (auto simp: check_init_lib_def Let_def split: if_splits)
  qed
qed

lemma check_init_lib_row_change:
  assumes "check_init_lib e st h m rl = Inr (rc, st', h')"
    and "i < length (compress_modules_cmds st)"
  shows "(libref (compress_modules_cmds st' ! i) \<noteq> libref (compress_modules_cmds st ! i) \<longrightarrow>
            rc = 0 \<and> int i = m \<and> loaded (compress_modules_cmds st' ! i) \<and>
            libref (compress_modules_cmds st' ! i) = libref (compress_modules_cmds st ! i) + 1 \<and>
            (loaded (compress_modules_cmds st ! i) \<or>
             (\<exists>f. load_lib (compress_modules_cmds st ! i) = Some f \<and> 0 \<le> fst (f h))) \<and>
            (\<forall>g. init (compress_modules_cmds st ! i) = Some g \<longrightarrow> 0 \<le> fst (g h m))) \<and>
         (loaded (compress_modules_cmds st' ! i) \<noteq> loaded (compress_modules_cmds st ! i) \<longrightarrow>
            int i = m \<and> loaded (compress_modules_cmds st' ! i) \<and>
            (\<exists>f. load_lib (compress_modules_cmds st ! i) = Some f \<and> 0 \<le> fst (f h)))"
  using check_init_lib_rows[OF assms(1)] assms(2)
  by (auto simp: row_at_def nth_list_update split: if_splits)

lemma fini_row_rows:
  assumes "fini_row st h idx = Inr (st', h')"
    and "idx < length (compress_modules_cmds st)"
  shows "length (compress_modules_cmds st') = length (compress_modules_cmds st) \<and>
         (\<forall>i. i \<noteq> idx \<longrightarrow> compress_modules_cmds st' ! i = compress_modules_cmds st ! i) \<and>
         libref (compress_modules_cmds st' ! idx) = libref (compress_modules_cmds st ! idx) - 1 \<and>
         (loaded (compress_modules_cmds st' ! idx) \<longrightarrow> loaded (compress_modules_cmds st ! idx)) \<and>
         (\<not> loaded (compress_modules_cmds st' ! idx) \<and> loaded (compress_modules_cmds st ! idx) \<longrightarrow>
            libref (compress_modules_cmds st' ! idx) = 0)"
  using assms
  by (auto simp: fini_row_def Let_def split: if_splits option.splits)

lemma fini_loop_unloaded:
  "fini_loop K idx st h = Inr (st', h') \<Longrightarrow>
   length (compress_modules_cmds st') = length (compress_modules_cmds st) \<and>
   (\<forall>i < length (compress_modules_cmds st).
      (\<not> loaded (compress_modules_cmds st ! i) \<longrightarrow>
         compress_modules_cmds st' ! i = compress_modules_cmds st ! i) \<and>
      (loaded (compress_modules_cmds st ! i) \<and> \<not> loaded (compress_modules_cmds st' ! i) \<longrightarrow>
         libref (compress_modules_cmds st' ! i) = 0))"
proof (induction K idx st h rule: fini_loop.induct)
  case (1 K idx st h)
  let ?r = "compress_modules_cmds st ! idx"
  from "1.prems" have in_range: "idx < length (compress_modules_cmds st)"
    by (subst (asm) fini_loop.simps) (auto split: if_splits)
  show ?case
  proof (cases "model_name ?r")
    case None
    with "1.prems" in_range show ?thesis
      by (subst (asm) fini_loop.simps) auto
  next
    case (Some n)
    show ?thesis
    proof (cases "built_in ?r \<and> loaded ?r \<and> int idx < KNET_MAX_COMPRESS_METHODS K")
      case False
      with "1.prems" in_range Some have "fini_loop K (idx + 1) st h = Inr (st', h')"
        by (subst (asm) fini_loop.simps) (auto split: if_splits)
      with "1.IH"(2)[of n] in_range Some False show ?thesis by auto
    next
      case True
      with "1.prems" in_range Some obtain st1 h1 where
        row: "fini_row st h idx = Inr (st1, h1)" and
        rest: "fini_loop K (idx + 1) st1 h1 = Inr (st', h')"
        by (subst (asm) fini_loop.simps) (auto split: if_splits sum.splits)
      from "1.IH"(1)[of n "(st1, h1)" st1 h1] in_range Some True row rest
      have ih: "length (compress_modules_cmds st') = length (compress_modules_cmds st1) \<and>
        (\<forall>i < length (compress_modules_cmds st1).
          (\<not> loaded (compress_modules_cmds st1 ! i) \<longrightarrow>
             compress_modules_cmds st' ! i = compress_modules_cmds st1 ! i) \<and>
          (loaded (compress_modules_cmds st1 ! i) \<and> \<not> loaded (compress_modules_cmds st' ! i) \<longrightarrow>
             libref (compress_modules_cmds st' ! i) = 0))"
        by simp
      have fr: "length (compress_modules_cmds st1) = length (compress_modules_cmds st)"
        "\<And>i. i \<noteq> idx \<Longrightarrow> compress_modules_cmds st1 ! i = compress_modules_cmds st ! i"
        "\<not> loaded (compress_modules_cmds st1 ! idx) \<Longrightarrow>
           libref (compress_modules_cmds st1 ! idx) = 0"
        using fini_row_rows[OF row in_range] True by auto
      show ?thesis
      proof (intro conjI allI impI)
        show "length (compress_modules_cmds st') = length (compress_modules_cmds st)"
          using ih fr(1) by simp
      next
        fix i
        assume "i < length (compress_modules_cmds st)" "\<not> loaded (compress_modules_cmds st ! i)"
        then show "compress_modules_cmds st' ! i = compress_modules_cmds st ! i"
          using ih fr(1) fr(2)[of i] True by (cases "i = idx") auto
      next
        fix i
        assume i: "i < length (compress_modules_cmds st)"
          and "loaded (compress_modules_cmds st ! i) \<and> \<not> loaded (compress_modules_cmds st' ! i)"
        then show "libref (compress_modules_cmds st' ! i) = 0"
          using ih fr(1) fr(2)[of i] fr(3)
          by (cases "i = idx"; cases "loaded (compress_modules_cmds st1 ! i)") auto
      qed
    qed
  qed
qed

lemma compress_fini_unloaded:
  assumes "compress_fini K e st h = Inr (st', h')"
    and "i < length (compress_modules_cmds st)"
  shows "(\<not> loaded (compress_modules_cmds st ! i) \<longrightarrow> \<not> loaded (compress_modules_cmds st' ! i)) \<and>
         (loaded (compress_modules_cmds st ! i) \<and> \<not> loaded (compress_modules_cmds st' ! i) \<longrightarrow>
            libref (compress_modules_cmds st' ! i) = 0)"
proof (cases "wrlock_ret e \<noteq> 0")
  case True
  with assms show ?thesis by (auto simp: compress_fini_def)
next
  case False
  with assms obtain st1 where "fini_loop K 0 (st\<lparr>shlib_rwlock := Wr_locked\<rparr>) h = Inr (st1, h')"
    and st': "st' = st1\<lparr>shlib_rwlock := Unlocked\<rparr>"
    by (auto simp: compress_fini_def split: sum.splits)
  from fini_loop_unloaded[OF this(1)] assms(2) st' show ?thesis by auto
qed

text \<open>
  Claim C5. For every row, \<open>libref > 0\<close> implies \<open>loaded\<close>, and every operation
  preserves this: ensure-init, \<open>compress_init\<close>, \<open>compress_cfg\<close>, \<open>compress\<close>,
  \<open>decompress\<close> and \<open>compress_fini\<close>. Moreover, in ensure-init (the only place where
  \<open>libref\<close> grows and \<open>loaded\<close> is set) a row's \<open>libref\<close> changes only by one
  increment, on a successful return, with the row loaded (it was loaded before, or
  \<open>load_lib\<close> has just succeeded) and with \<open>init\<close>, when the row has one, having
  succeeded; \<open>loaded\<close> changes only from false to true and only after a successful
  \<open>load_lib\<close>. In \<open>compress_fini\<close> (the only place where \<open>loaded\<close> is cleared) a row
  that was not loaded stays so, and a row that stops being loaded has \<open>libref = 0\<close>.
\<close>

theorem libref_loaded_invariant:
  assumes "libref_inv (compress_modules_cmds st)"
  shows "(check_init_lib e st h m rl = Inr (rc1, st1, h1) \<longrightarrow>
            libref_inv (compress_modules_cmds st1)) \<and>
         (compress_init K st = Inr (rc2, st2) \<longrightarrow> libref_inv (compress_modules_cmds st2)) \<and>
         (compress_cfg K e st h cfg = Inr (rc3, st3, h3) \<longrightarrow>
            libref_inv (compress_modules_cmds st3)) \<and>
         (compress e st h buf_in buf_in_len buf_out buf_out_len = Inr (rc4, st4, h4, out4, len4) \<longrightarrow>
            libref_inv (compress_modules_cmds st4)) \<and>
         (decompress e st h m buf_in buf_in_len buf_out buf_out_len =
            Inr (rc5, st5, h5, out5, len5) \<longrightarrow>
            libref_inv (compress_modules_cmds st5)) \<and>
         (compress_fini K e st h = Inr (st6, h6) \<longrightarrow> libref_inv (compress_modules_cmds st6)) \<and>
         (check_init_lib e st h m rl = Inr (rc1, st1, h1) \<and> i < length (compress_modules_cmds st) \<longrightarrow>
            (libref (compress_modules_cmds st1 ! i) \<noteq> libref (compress_modules_cmds st ! i) \<longrightarrow>
               rc1 = 0 \<and> int i = m \<and> loaded (compress_modules_cmds st1 ! i) \<and>
               libref (compress_modules_cmds st1 ! i) = libref (compress_modules_cmds st ! i) + 1 \<and>
               (loaded (compress_modules_cmds st ! i) \<or>
                (\<exists>f. load_lib (compress_modules_cmds st ! i) = Some f \<and> 0 \<le> fst (f h))) \<and>
               (\<forall>g. init (compress_modules_cmds st ! i) = Some g \<longrightarrow> 0 \<le> fst (g h m))) \<and>
            (loaded (compress_modules_cmds st1 ! i) \<noteq> loaded (compress_modules_cmds st ! i) \<longrightarrow>
               int i = m \<and> loaded (compress_modules_cmds st1 ! i) \<and>
               (\<exists>f. load_lib (compress_modules_cmds st ! i) = Some f \<and> 0 \<le> fst (f h)))) \<and>
         (compress_fini K e st h = Inr (st6, h6) \<and> i < length (compress_modules_cmds st) \<longrightarrow>
            (\<not> loaded (compress_modules_cmds st ! i) \<longrightarrow> \<not> loaded (compress_modules_cmds st6 ! i)) \<and>
            (loaded (compress_modules_cmds st ! i) \<and> \<not> loaded (compress_modules_cmds st6 ! i) \<longrightarrow>
               libref (compress_modules_cmds st6 ! i) = 0))"
proof (intro conjI impI)
  show "libref_inv (compress_modules_cmds st1)"
    if "check_init_lib e st h m rl = Inr (rc1, st1, h1)"
    using check_init_lib_inv[OF that assms] .
  show "libref_inv (compress_modules_cmds st2)" if "compress_init K st = Inr (rc2, st2)"
    using compress_init_inv[OF that assms] .
  show "libref_inv (compress_modules_cmds st3)" if "compress_cfg K e st h cfg = Inr (rc3, st3, h3)"
    using compress_cfg_inv[OF that assms] .
  show "libref_inv (compress_modules_cmds st4)"
    if "compress e st h buf_in buf_in_len buf_out buf_out_len = Inr (rc4, st4, h4, out4, len4)"
    using compress_inv[OF that assms] .
  show "libref_inv (compress_modules_cmds st5)"
    if "decompress e st h m buf_in buf_in_len buf_out buf_out_len = Inr (rc5, st5, h5, out5, len5)"
    using decompress_inv[OF that assms] .
  show "libref_inv (compress_modules_cmds st6)" if "compress_fini K e st h = Inr (st6, h6)"
    using compress_fini_inv[OF that assms] .
qed (use check_init_lib_row_change[of e st h m rl rc1 st1 h1 i]
       compress_fini_unloaded[of K e st h st6 h6 i] in blast)+

theorem libref_loaded_invariant_witness:
  "libref_inv (compress_modules_cmds ready_state) \<and>
   libref_inv (compress_modules_cmds zlib_state) \<and>
   libref (compress_modules_cmds zlib_state ! 1) = 1 \<and>
   loaded (compress_modules_cmds zlib_state ! 1) \<and>
   libref_inv (compress_modules_cmds zlib_unloaded) \<and>
   libref (compress_modules_cmds zlib_unloaded ! 1) = 0 \<and>
   \<not> loaded (compress_modules_cmds zlib_unloaded ! 1)"
proof -
  have r: "libref_inv (compress_modules_cmds ready_state)"
    by (simp add: libref_inv_def test_defs)
  have z: "libref_inv (compress_modules_cmds zlib_state)"
    using libref_loaded_invariant[OF r, of "env_at 1" fresh_handle 1 0 0 zlib_state zlib_user
        test_consts 0 zlib_state "zlib_cfg 1024" 0 zlib_state zlib_user] cfg_zlib
    by simp
  have u: "libref_inv (compress_modules_cmds zlib_unloaded)"
    using libref_loaded_invariant[OF z, of "env_at 3" zlib_user 1 0 0 zlib_state zlib_user
        test_consts 0 zlib_state "zlib_cfg 1024" 0 zlib_state zlib_user "[]" 0 "[]" 0 0
        zlib_state zlib_user "[]" 0 0 zlib_state zlib_user "[]" 0 zlib_unloaded
        "zlib_user\<lparr>compress_int_data := (\<lambda>i. NULL)\<rparr>"] fini_zlib
    by simp
  show ?thesis
    using r z u
    by (simp add: zlib_unloaded_def zlib_state_def zlib_loaded_def test_defs)
qed

end
